theory Spec2Isabelle
  imports Complex_Main "HOL-Library.Word" "HOL-Library.Sublist" "HOL-Library.AList"
    "HOL-Library.Monad_Syntax"
begin

section \<open>JavaScript strings\<close>

text \<open>
  A JavaScript string is a sequence of 16-bit code units; \<open>length\<close>, \<open>indexOf\<close>,
  \<open>slice\<close> and the regular expressions of \<^verbatim>\<open>scripts/bootstrap-admin.js\<close> all count
  code units. String literals of the source are written \<open>js ''...''\<close>.
\<close>

type_synonym unit16 = "16 word"
type_synonym jsstring = "unit16 list"

definition js :: "string \<Rightarrow> jsstring" where
  "js s = map of_char s"

definition between :: "char \<Rightarrow> char \<Rightarrow> unit16 \<Rightarrow> bool" where
  \<comment> \<open>a range \<^verbatim>\<open>lo-hi\<close> of a character class\<close>
  "between lo hi c \<longleftrightarrow> of_char lo \<le> c \<and> c \<le> of_char hi"

definition isWhiteSpace :: "unit16 \<Rightarrow> bool" where
  \<comment> \<open>WhiteSpace and LineTerminator of ECMAScript: what \<^verbatim>\<open>trim\<close> strips and \<^verbatim>\<open>\s\<close> matches\<close>
  "isWhiteSpace c \<longleftrightarrow>
     (0x0009 \<le> c \<and> c \<le> 0x000D) \<or> c = 0x0020 \<or> c = 0x00A0 \<or> c = 0x1680 \<or>
     (0x2000 \<le> c \<and> c \<le> 0x200A) \<or> c = 0x2028 \<or> c = 0x2029 \<or> c = 0x202F \<or>
     c = 0x205F \<or> c = 0x3000 \<or> c = 0xFEFF"

definition trim :: "jsstring \<Rightarrow> jsstring" where
  \<comment> \<open>\<^verbatim>\<open>String.prototype.trim\<close>\<close>
  "trim s = rev (dropWhile isWhiteSpace (rev (dropWhile isWhiteSpace s)))"

definition lowerUnit :: "unit16 \<Rightarrow> jsstring" where
  \<comment> \<open>The lower-case mapping of one code unit. Unicode maps \<^verbatim>\<open>A-Z\<close> to \<^verbatim>\<open>a-z\<close>, U+212A
     (Kelvin sign) to \<^verbatim>\<open>k\<close> and U+0130 to \<^verbatim>\<open>i\<close> followed by U+0307. Every other code unit
     from 0x80 on is mapped by JavaScript to code units from 0x80 on again; it is kept as
     it is here, and \<open>normalizeEmail\<close> rejects a string holding such a unit whatever the
     unit is.\<close>
  "lowerUnit c =
     (if between CHR ''A'' CHR ''Z'' c then [c + 0x20]
      else if c = 0x212A then js ''k''
      else if c = 0x0130 then js ''i'' @ [0x0307]
      else [c])"

definition toLowerCase :: "jsstring \<Rightarrow> jsstring" where
  \<comment> \<open>\<^verbatim>\<open>String.prototype.toLowerCase\<close>\<close>
  "toLowerCase s = concat (map lowerUnit s)"

fun indexOf :: "jsstring \<Rightarrow> jsstring \<Rightarrow> int" where
  \<comment> \<open>\<^verbatim>\<open>s.indexOf(p)\<close>: the first position where \<open>p\<close> occurs, -1 when there is none\<close>
  "indexOf [] p = (if p = [] then 0 else -1)"
| "indexOf (x # xs) p =
     (if prefix p (x # xs) then 0
      else (let i = indexOf xs p in if i < 0 then -1 else i + 1))"

definition includes_js :: "jsstring \<Rightarrow> jsstring \<Rightarrow> bool" where
  \<comment> \<open>\<^verbatim>\<open>s.includes(p)\<close>\<close>
  "includes_js s p \<longleftrightarrow> indexOf s p \<noteq> -1"

definition startsWith :: "jsstring \<Rightarrow> jsstring \<Rightarrow> bool" where
  "startsWith s p \<longleftrightarrow> prefix p s"

definition endsWith :: "jsstring \<Rightarrow> jsstring \<Rightarrow> bool" where
  "endsWith s p \<longleftrightarrow> suffix p s"

definition slice :: "jsstring \<Rightarrow> nat \<Rightarrow> nat \<Rightarrow> jsstring" where
  \<comment> \<open>\<^verbatim>\<open>s.slice(start, end)\<close> for indices that are not negative\<close>
  "slice s start stop = take (stop - start) (drop start s)"

definition sliceFrom :: "jsstring \<Rightarrow> nat \<Rightarrow> jsstring" where
  \<comment> \<open>\<^verbatim>\<open>s.slice(start)\<close> for an index that is not negative\<close>
  "sliceFrom s start = drop start s"

definition testAll :: "(unit16 \<Rightarrow> bool) \<Rightarrow> jsstring \<Rightarrow> bool" where
  \<comment> \<open>\<^verbatim>\<open>/^[cls]+$/.test(s)\<close>: without the \<^verbatim>\<open>m\<close> flag \<^verbatim>\<open>$\<close> matches at the end of the
     input only, so the whole string is one or more units of the class\<close>
  "testAll cls s \<longleftrightarrow> s \<noteq> [] \<and> list_all cls s"

definition testAny :: "(unit16 \<Rightarrow> bool) \<Rightarrow> jsstring \<Rightarrow> bool" where
  \<comment> \<open>\<^verbatim>\<open>/[cls]/.test(s)\<close>: some unit of the string is in the class\<close>
  "testAny cls s \<longleftrightarrow> list_ex cls s"

section \<open>The validators\<close>

definition usernameClass :: "unit16 \<Rightarrow> bool" where
  \<comment> \<open>\<^verbatim>\<open>[a-zA-Z0-9_.-]\<close>\<close>
  "usernameClass c \<longleftrightarrow>
     between CHR ''a'' CHR ''z'' c \<or> between CHR ''A'' CHR ''Z'' c \<or>
     between CHR ''0'' CHR ''9'' c \<or> c \<in> set (js ''_.-'')"

definition cleanUsername :: "jsstring \<Rightarrow> jsstring option" where
  "cleanUsername raw =
     (let u = trim raw in
      if length u < 3 \<or> length u > 32 then None
      else if \<not> testAll usernameClass u then None
      else Some u)"

definition normalizePassword :: "jsstring \<Rightarrow> jsstring option" where
  "normalizePassword raw =
     (let p = raw in
      if length p < 8 \<or> length p > 256 then None
      else Some p)"

definition localClass :: "unit16 \<Rightarrow> bool" where
  \<comment> \<open>\<^verbatim>\<open>[a-z0-9.!#$%&'*+/=?^_`{|}~-]\<close>; 0x27 is the apostrophe, 0x60 the backquote\<close>
  "localClass c \<longleftrightarrow>
     between CHR ''a'' CHR ''z'' c \<or> between CHR ''0'' CHR ''9'' c \<or>
     c \<in> set (js ''.!#$%&'') \<or> c = 0x27 \<or> c \<in> set (js ''*+/=?^_'') \<or> c = 0x60 \<or>
     c \<in> set (js ''{|}~-'')"

definition domainClass :: "unit16 \<Rightarrow> bool" where
  \<comment> \<open>\<^verbatim>\<open>[a-z0-9.-]\<close>\<close>
  "domainClass c \<longleftrightarrow>
     between CHR ''a'' CHR ''z'' c \<or> between CHR ''0'' CHR ''9'' c \<or> c \<in> set (js ''.-'')"

definition normalizeEmail :: "jsstring \<Rightarrow> jsstring option" where
  "normalizeEmail raw =
     (let e = toLowerCase (trim raw) in
      if e = [] then None
      else if length e > 254 then None
      else if testAny isWhiteSpace e then None
      else
        let atIdx = indexOf e (js ''@'') in
        if atIdx \<le> 0 \<or> atIdx = int (length e) - 1 then None
        else
          let localPart = slice e 0 (nat atIdx);
              domainPart = sliceFrom e (nat atIdx + 1) in
          if length localPart > 64 then None
          else if length domainPart < 3 then None
          else if \<not> includes_js domainPart (js ''.'') then None
          else if \<not> testAll localClass localPart then None
          else if \<not> testAll domainClass domainPart then None
          else if startsWith domainPart (js ''.'') \<or> endsWith domainPart (js ''.'') then None
          else if includes_js domainPart (js ''..'') then None
          else Some e)"


section \<open>JavaScript values\<close>

text \<open>
  \<open>json\<close> is what a JSON text denotes and \<open>jsval\<close> is a value in memory. An object is
  the list of its own properties in insertion order, read at the first binding of a
  name. An array carries its elements and the named properties assigned to it, which
  \<^verbatim>\<open>JSON.stringify\<close> does not write. A number is the real it stands for: the script stores
  -1 and asks whether a value is a number, and computes with none. A file with a number
  literal beyond the range of a double, which \<^verbatim>\<open>JSON.parse\<close> reads as \<^verbatim>\<open>Infinity\<close>, is not
  covered.
\<close>

datatype json = JNull | JBool bool | JNum real | JStr jsstring
  | JArr "json list" | JObj "(jsstring \<times> json) list"

datatype jsval = VUndefined | VNull | VBool bool | VNum real | VStr jsstring
  | VArr "jsval list" "(jsstring \<times> jsval) list" | VObj "(jsstring \<times> jsval) list"

primrec fromJSON :: "json \<Rightarrow> jsval" where
  \<comment> \<open>the value \<^verbatim>\<open>JSON.parse\<close> builds for a JSON text\<close>
  "fromJSON JNull = VNull"
| "fromJSON (JBool b) = VBool b"
| "fromJSON (JNum r) = VNum r"
| "fromJSON (JStr s) = VStr s"
| "fromJSON (JArr xs) = VArr (map fromJSON xs) []"
| "fromJSON (JObj ps) = VObj (map (map_prod id fromJSON) ps)"

primrec toJSON :: "jsval \<Rightarrow> json option" where
  \<comment> \<open>what the text of \<^verbatim>\<open>JSON.stringify(v, null, 2)\<close> denotes; \<open>None\<close> where it returns
     \<^verbatim>\<open>undefined\<close>. A property whose value is \<^verbatim>\<open>undefined\<close> is left out, an array element
     that is \<^verbatim>\<open>undefined\<close> is written \<^verbatim>\<open>null\<close>.\<close>
  "toJSON VUndefined = None"
| "toJSON VNull = Some JNull"
| "toJSON (VBool b) = Some (JBool b)"
| "toJSON (VNum r) = Some (JNum r)"
| "toJSON (VStr s) = Some (JStr s)"
| "toJSON (VArr xs ps) =
     Some (JArr (map (\<lambda>j. case j of None \<Rightarrow> JNull | Some v \<Rightarrow> v) (map toJSON xs)))"
| "toJSON (VObj ps) =
     Some (JObj (List.map_filter (\<lambda>(k, j). map_option (Pair k) j)
       (map (map_prod id toJSON) ps)))"

fun truthy :: "jsval \<Rightarrow> bool" where
  "truthy VUndefined = False"
| "truthy VNull = False"
| "truthy (VBool b) = b"
| "truthy (VNum r) = (r \<noteq> 0)"
| "truthy (VStr s) = (s \<noteq> [])"
| "truthy (VArr xs ps) = True"
| "truthy (VObj ps) = True"

fun typeof :: "jsval \<Rightarrow> jsstring" where
  "typeof VUndefined = js ''undefined''"
| "typeof VNull = js ''object''"
| "typeof (VBool b) = js ''boolean''"
| "typeof (VNum r) = js ''number''"
| "typeof (VStr s) = js ''string''"
| "typeof (VArr xs ps) = js ''object''"
| "typeof (VObj ps) = js ''object''"

fun isArray :: "jsval \<Rightarrow> bool" where
  \<comment> \<open>\<^verbatim>\<open>Array.isArray\<close>\<close>
  "isArray (VArr xs ps) = True"
| "isArray v = False"

text \<open>
  The script reads and assigns the properties \<^verbatim>\<open>users\<close>, \<^verbatim>\<open>username\<close>, \<^verbatim>\<open>email\<close>, \<^verbatim>\<open>role\<close>,
  \<^verbatim>\<open>salt\<close>, \<^verbatim>\<open>passHash\<close>, \<^verbatim>\<open>quota\<close>, \<^verbatim>\<open>unlocked\<close>, \<^verbatim>\<open>contentTokens\<close>, \<^verbatim>\<open>disabled\<close>,
  \<^verbatim>\<open>accessUntilMs\<close> and \<^verbatim>\<open>createdAt\<close>. None of them is defined on a prototype, is an array
  index or is \<^verbatim>\<open>length\<close>, so reading one is a lookup among the own properties and
  assigning one adds or replaces an own property. \<open>None\<close> is a thrown \<^verbatim>\<open>TypeError\<close>: the
  script runs in strict mode, where assigning a property of a primitive value throws.
\<close>

fun getProp :: "jsval \<Rightarrow> jsstring \<Rightarrow> jsval option" where
  \<comment> \<open>\<^verbatim>\<open>v.k\<close>\<close>
  "getProp VUndefined k = None"
| "getProp VNull k = None"
| "getProp (VObj ps) k = Some (case map_of ps k of Some v \<Rightarrow> v | None \<Rightarrow> VUndefined)"
| "getProp (VArr xs ps) k = Some (case map_of ps k of Some v \<Rightarrow> v | None \<Rightarrow> VUndefined)"
| "getProp v k = Some VUndefined"

fun setProp :: "jsval \<Rightarrow> jsstring \<Rightarrow> jsval \<Rightarrow> jsval option" where
  \<comment> \<open>\<^verbatim>\<open>u.k = v\<close>, returning \<open>u\<close> after the assignment\<close>
  "setProp (VObj ps) k v = Some (VObj (AList.update k v ps))"
| "setProp (VArr xs ps) k v = Some (VArr xs (AList.update k v ps))"
| "setProp u k v = None"

definition joinWith :: "jsstring \<Rightarrow> jsstring list \<Rightarrow> jsstring" where
  "joinWith sep ss =
     concat (case ss of [] \<Rightarrow> [] | s # rest \<Rightarrow> s # map (\<lambda>t. sep @ t) rest)"

fun ToString :: "(real \<Rightarrow> jsstring) \<Rightarrow> jsval \<Rightarrow> jsstring option"
  and elementStrings :: "(real \<Rightarrow> jsstring) \<Rightarrow> jsval list \<Rightarrow> jsstring list option" where
  \<comment> \<open>\<^verbatim>\<open>String(v)\<close>, \<open>None\<close> for a thrown \<^verbatim>\<open>TypeError\<close>. \<open>nts\<close> is JavaScript's
     formatting of a number as a string. No value of \<open>jsval\<close> is a function, so an own
     property \<^verbatim>\<open>toString\<close> hides the inherited method and the conversion throws; an array
     goes through \<^verbatim>\<open>Array.prototype.join\<close>, where \<^verbatim>\<open>undefined\<close> and \<^verbatim>\<open>null\<close> elements
     give the empty string.\<close>
  "ToString nts VUndefined = Some (js ''undefined'')"
| "ToString nts VNull = Some (js ''null'')"
| "ToString nts (VBool b) = Some (if b then js ''true'' else js ''false'')"
| "ToString nts (VNum r) = Some (nts r)"
| "ToString nts (VStr s) = Some s"
| "ToString nts (VObj ps) =
     (if map_of ps (js ''toString'') \<noteq> None then None else Some (js ''[object Object]''))"
| "ToString nts (VArr xs ps) =
     (if map_of ps (js ''toString'') \<noteq> None then None
      else if map_of ps (js ''join'') \<noteq> None then Some (js ''[object Array]'')
      else map_option (joinWith (js '','')) (elementStrings nts xs))"
| "elementStrings nts [] = Some []"
| "elementStrings nts (x # xs) =
     do {
       s \<leftarrow> (if x = VUndefined \<or> x = VNull then Some [] else ToString nts x);
       ss \<leftarrow> elementStrings nts xs;
       Some (s # ss)
     }"

fun find_js :: "('a \<Rightarrow> bool option) \<Rightarrow> 'a list \<Rightarrow> nat option option" where
  \<comment> \<open>\<^verbatim>\<open>xs.find(p)\<close> as the position of the element found: \<open>Some None\<close> when no element
     satisfies \<open>p\<close>, \<open>None\<close> when \<open>p\<close> throws before one does\<close>
  "find_js p [] = Some None"
| "find_js p (x # xs) =
     do {
       b \<leftarrow> p x;
       if b then Some (Some 0) else map_option (map_option Suc) (find_js p xs)
     }"

section \<open>Hex encoding\<close>

type_synonym bytes = "8 word list"

definition hexDigit :: "nat \<Rightarrow> unit16" where
  "hexDigit n = js ''0123456789abcdef'' ! n"

definition hexByte :: "8 word \<Rightarrow> jsstring" where
  "hexByte b = [hexDigit (unat b div 16), hexDigit (unat b mod 16)]"

definition toHex :: "bytes \<Rightarrow> jsstring" where
  \<comment> \<open>\<^verbatim>\<open>buf.toString("hex")\<close>\<close>
  "toHex bs = concat (map hexByte bs)"


section \<open>The environment of a run\<close>

record process_env =
  env_ADMIN_USER :: "jsstring option"
  env_ADMIN_USERNAME :: "jsstring option"
  env_ADMIN_PASS :: "jsstring option"
  env_ADMIN_PASSWORD :: "jsstring option"
  env_ADMIN_EMAIL :: "jsstring option"

datatype io_error = ENOENT | EACCES | EISDIR | ENOSPC | EIO

text \<open>
  The text of a file is taken by what \<^verbatim>\<open>JSON.parse\<close> makes of it. The entry at
  \<^verbatim>\<open>USERS_FILE\<close> is absent, or one that \<^verbatim>\<open>readFile\<close> fails on with some error, or a
  readable file.

  A \<open>world\<close> is what a run meets outside the script: the entry at \<^verbatim>\<open>USERS_FILE\<close>, the
  value of \<^verbatim>\<open>new Date().toISOString()\<close>, of \<^verbatim>\<open>crypto.randomUUID()\<close> and of
  \<^verbatim>\<open>crypto.randomBytes(n)\<close>, the key or the error (\<open>None\<close>) that \<^verbatim>\<open>crypto.scrypt\<close> passes
  to its callback, the error, if any, of \<^verbatim>\<open>writeFile\<close> on the temporary file and of
  \<^verbatim>\<open>rename\<close>, and JavaScript's formatting of numbers as strings. A \<open>result\<close> is how the
  run ends, the entry at \<^verbatim>\<open>USERS_FILE\<close> after it, and the file-system calls it made, in
  order.
\<close>

datatype filetext = NotJSON | Json json

datatype fsentry = Absent | Failing io_error | Text filetext

datatype error = TypeError | IOError io_error | ScryptError

datatype fs_call = Mkdir | ReadFile | WriteFile filetext | Rename

datatype outcome =
    Usage jsstring   \<comment> \<open>\<^verbatim>\<open>usage(msg)\<close>: the message on the error stream, exit code 1\<close>
  | Rejected error   \<comment> \<open>\<^verbatim>\<open>main().catch\<close>: the error on the error stream, exit code 1\<close>
  | Ready jsval      \<comment> \<open>\<^verbatim>\<open>main\<close> ran to its end, with this \<^verbatim>\<open>db\<close> in memory\<close>

record world =
  file_before :: fsentry
  date_now :: jsstring
  crypto_randomUUID :: jsstring
  crypto_randomBytes :: "nat \<Rightarrow> bytes"
  crypto_scrypt :: "jsstring \<Rightarrow> bytes \<Rightarrow> nat \<Rightarrow> bytes option"
  writeFile_error :: "io_error option"
  rename_error :: "io_error option"
  numberToString :: "real \<Rightarrow> jsstring"

record result =
  outcome :: outcome
  file_after :: fsentry
  calls :: "fs_call list"

definition wf_world :: "world \<Rightarrow> bool" where
  \<comment> \<open>what Node promises of \<^verbatim>\<open>crypto.randomBytes(n)\<close> and of the key length of
     \<^verbatim>\<open>crypto.scrypt\<close>\<close>
  "wf_world w \<longleftrightarrow>
     (\<forall>n. length (crypto_randomBytes w n) = n) \<and>
     (\<forall>p s n k. crypto_scrypt w p s n = Some k \<longrightarrow> length k = n)"

fun exitCode :: "outcome \<Rightarrow> nat" where
  "exitCode (Usage msg) = 1"
| "exitCode (Rejected err) = 1"
| "exitCode (Ready db) = 0"

definition readFile :: "fsentry \<Rightarrow> io_error + filetext" where
  "readFile f = (case f of Absent \<Rightarrow> Inl ENOENT | Failing e \<Rightarrow> Inl e | Text t \<Rightarrow> Inr t)"

definition JSON_parse :: "filetext \<Rightarrow> json option" where
  \<comment> \<open>\<open>None\<close> for a thrown \<^verbatim>\<open>SyntaxError\<close>\<close>
  "JSON_parse t = (case t of NotJSON \<Rightarrow> None | Json j \<Rightarrow> Some j)"

definition JSON_stringify :: "jsval \<Rightarrow> filetext" where
  \<comment> \<open>for \<^verbatim>\<open>undefined\<close> the script would write the word \<^verbatim>\<open>undefined\<close>, which is not JSON\<close>
  "JSON_stringify v = (case toJSON v of None \<Rightarrow> NotJSON | Some j \<Rightarrow> Json j)"

section \<open>The script\<close>

definition orElse :: "jsstring option \<Rightarrow> jsstring \<Rightarrow> jsstring" where
  \<comment> \<open>\<^verbatim>\<open>a || b\<close> for \<open>a\<close> a string or \<^verbatim>\<open>undefined\<close>\<close>
  "orElse a b = (case a of None \<Rightarrow> b | Some s \<Rightarrow> if s = [] then b else s)"

definition ADMIN_USER :: "process_env \<Rightarrow> jsstring" where
  "ADMIN_USER env = trim (orElse (env_ADMIN_USER env) (orElse (env_ADMIN_USERNAME env) []))"

definition ADMIN_PASS :: "process_env \<Rightarrow> jsstring" where
  "ADMIN_PASS env = orElse (env_ADMIN_PASS env) (orElse (env_ADMIN_PASSWORD env) [])"

definition ADMIN_EMAIL :: "process_env \<Rightarrow> jsstring" where
  "ADMIN_EMAIL env = trim (orElse (env_ADMIN_EMAIL env) [])"

definition emptyDb :: jsval where
  "emptyDb = VObj [(js ''users'', VArr [] [])]"

definition load :: "fsentry \<Rightarrow> jsval" where
  \<comment> \<open>the \<^verbatim>\<open>try\<close> block of \<^verbatim>\<open>main\<close>; its \<^verbatim>\<open>catch\<close> takes every error\<close>
  "load f =
     (case readFile f of
        Inl err \<Rightarrow> emptyDb
      | Inr raw \<Rightarrow>
          (case JSON_parse raw of
             None \<Rightarrow> emptyDb
           | Some j \<Rightarrow>
               (let parsed = fromJSON j in
                if truthy parsed \<and>
                   (case getProp parsed (js ''users'') of None \<Rightarrow> False | Some v \<Rightarrow> isArray v)
                then parsed else emptyDb)))"

text \<open>
  \<^verbatim>\<open>db.users\<close> is the array that \<^verbatim>\<open>JSON.parse\<close> built, or the fresh empty one. \<^verbatim>\<open>find\<close> returns
  one of its elements, and the assignments of the \<^verbatim>\<open>else\<close> branch change that element
  where it is; a parsed value is a tree, so no other part of \<^verbatim>\<open>db\<close> shares it.
\<close>

definition matchesUser :: "(real \<Rightarrow> jsstring) \<Rightarrow> jsstring \<Rightarrow> jsval \<Rightarrow> bool option" where
  \<comment> \<open>\<^verbatim>\<open>(x) => String(x && x.username) === username\<close>\<close>
  "matchesUser nts username x =
     do {
       v \<leftarrow> (if truthy x then getProp x (js ''username'') else Some x);
       s \<leftarrow> ToString nts v;
       Some (s = username)
     }"

text \<open>
  \<open>cleanUsername\<close>, \<open>normalizePassword\<close> and \<open>normalizeEmail\<close> return a string or
  \<^verbatim>\<open>null\<close>, here \<open>None\<close>; \<^verbatim>\<open>null\<close> and the empty string are the falsy ones.
\<close>

definition falsy :: "jsstring option \<Rightarrow> bool" where
  \<comment> \<open>\<^verbatim>\<open>!x\<close>\<close>
  "falsy x \<longleftrightarrow> (case x of None \<Rightarrow> True | Some s \<Rightarrow> s = [])"

definition orUndefined :: "jsstring option \<Rightarrow> jsval" where
  \<comment> \<open>\<^verbatim>\<open>x || undefined\<close>\<close>
  "orUndefined x = (case x of None \<Rightarrow> VUndefined | Some s \<Rightarrow> if s = [] then VUndefined else VStr s)"

definition newUser ::
  "jsstring \<Rightarrow> jsstring \<Rightarrow> jsstring option \<Rightarrow> jsstring \<Rightarrow> jsstring \<Rightarrow> jsstring \<Rightarrow> jsval" where
  "newUser uuid username email salt passHash now =
     VObj [
       (js ''id'', VStr uuid),
       (js ''username'', VStr username),
       (js ''email'', orUndefined email),
       (js ''role'', VStr (js ''admin'')),
       (js ''salt'', VStr salt),
       (js ''passHash'', VStr passHash),
       (js ''quota'', VNum (- 1)),
       (js ''unlocked'', VArr [] []),
       (js ''contentTokens'', VArr [] []),
       (js ''disabled'', VBool False),
       (js ''accessUntilMs'', VNull),
       (js ''createdAt'', VStr now)]"

definition updateUser ::
  "jsval \<Rightarrow> jsstring \<Rightarrow> jsstring option \<Rightarrow> jsstring \<Rightarrow> jsstring \<Rightarrow> jsstring \<Rightarrow> jsval option" where
  \<comment> \<open>the \<^verbatim>\<open>else\<close> branch of \<^verbatim>\<open>main\<close>, statement by statement\<close>
  "updateUser u0 username email salt passHash now =
     do {
       u \<leftarrow> setProp u0 (js ''username'') (VStr username);
       u \<leftarrow> (case email of
               None \<Rightarrow> Some u
             | Some e \<Rightarrow> if e \<noteq> [] then setProp u (js ''email'') (VStr e) else Some u);
       u \<leftarrow> setProp u (js ''role'') (VStr (js ''admin''));
       u \<leftarrow> setProp u (js ''salt'') (VStr salt);
       u \<leftarrow> setProp u (js ''passHash'') (VStr passHash);
       quota \<leftarrow> getProp u (js ''quota'');
       u \<leftarrow> (if typeof quota \<noteq> js ''number'' then setProp u (js ''quota'') (VNum (- 1))
             else Some u);
       unlocked \<leftarrow> getProp u (js ''unlocked'');
       u \<leftarrow> (if \<not> isArray unlocked then setProp u (js ''unlocked'') (VArr [] []) else Some u);
       contentTokens \<leftarrow> getProp u (js ''contentTokens'');
       u \<leftarrow> (if \<not> isArray contentTokens then setProp u (js ''contentTokens'') (VArr [] [])
             else Some u);
       u \<leftarrow> setProp u (js ''disabled'') (VBool False);
       u \<leftarrow> setProp u (js ''accessUntilMs'') VNull;
       createdAt \<leftarrow> getProp u (js ''createdAt'');
       u \<leftarrow> (if \<not> truthy createdAt then setProp u (js ''createdAt'') (VStr now) else Some u);
       Some u
     }"


definition withUsers :: "jsval \<Rightarrow> jsval \<Rightarrow> jsval" where
  \<comment> \<open>\<^verbatim>\<open>db\<close> once the array that \<^verbatim>\<open>db.users\<close> refers to has become \<open>users\<close>\<close>
  "withUsers db users =
     (case db of
        VObj ps \<Rightarrow> VObj (AList.update (js ''users'') users ps)
      | VArr xs ps \<Rightarrow> VArr xs (AList.update (js ''users'') users ps)
      | v \<Rightarrow> v)"

definition upsert ::
  "jsval \<Rightarrow> nat option \<Rightarrow> jsstring \<Rightarrow> jsstring \<Rightarrow> jsstring option \<Rightarrow> jsstring \<Rightarrow> jsstring \<Rightarrow>
   jsstring \<Rightarrow> jsval option" where
  \<comment> \<open>\<^verbatim>\<open>if (!u) {...} else {...}\<close> for \<^verbatim>\<open>u = db.users.find(...) || null\<close>, with \<open>found\<close>
     the position of what \<^verbatim>\<open>find\<close> returned. \<open>u\<close> is \<^verbatim>\<open>null\<close> when nothing was found or
     what was found is falsy, and a new record is pushed; else the element found is
     changed in place. \<open>None\<close> is a thrown \<^verbatim>\<open>TypeError\<close>.\<close>
  "upsert db found uuid username email salt passHash now =
     (case getProp db (js ''users'') of
        Some (VArr xs ps) \<Rightarrow>
          (let pushed = withUsers db
                 (VArr (xs @ [newUser uuid username email salt passHash now]) ps) in
           case found of
             None \<Rightarrow> Some pushed
           | Some i \<Rightarrow>
               if \<not> truthy (xs ! i) then Some pushed
               else
                 do {
                   u \<leftarrow> updateUser (xs ! i) username email salt passHash now;
                   Some (withUsers db (VArr (xs[i := u]) ps))
                 })
      | _ \<Rightarrow> None)"

definition usage :: "world \<Rightarrow> jsstring \<Rightarrow> result" where
  \<comment> \<open>\<^verbatim>\<open>usage(msg)\<close> ends the process at once: nothing after it runs\<close>
  "usage w msg = \<lparr>outcome = Usage msg, file_after = file_before w, calls = []\<rparr>"

definition rejected :: "world \<Rightarrow> error \<Rightarrow> fs_call list \<Rightarrow> result" where
  \<comment> \<open>\<^verbatim>\<open>main\<close> throws: the entry at \<^verbatim>\<open>USERS_FILE\<close> is as it was, since \<^verbatim>\<open>writeFile\<close> goes to
     the temporary file and a \<^verbatim>\<open>rename\<close> that fails replaces nothing\<close>
  "rejected w err done = \<lparr>outcome = Rejected err, file_after = file_before w, calls = done\<rparr>"

definition persist :: "world \<Rightarrow> jsval \<Rightarrow> fs_call list \<Rightarrow> result" where
  \<comment> \<open>\<^verbatim>\<open>writeFile(tmp, JSON.stringify(db, null, 2) + "\n")\<close>, then \<^verbatim>\<open>rename(tmp, USERS_FILE)\<close>\<close>
  "persist w db done =
     (let written = JSON_stringify db in
      case writeFile_error w of
        Some e \<Rightarrow> rejected w (IOError e) (done @ [WriteFile written])
      | None \<Rightarrow>
          (case rename_error w of
             Some e \<Rightarrow> rejected w (IOError e) (done @ [WriteFile written, Rename])
           | None \<Rightarrow>
               \<lparr>outcome = Ready db, file_after = Text written,
                calls = done @ [WriteFile written, Rename]\<rparr>))"

definition store :: "world \<Rightarrow> jsstring \<Rightarrow> jsstring \<Rightarrow> jsstring option \<Rightarrow> result" where
  \<comment> \<open>\<^verbatim>\<open>main\<close> from \<^verbatim>\<open>fsp.mkdir\<close> on; an error of \<^verbatim>\<open>mkdir\<close> is dropped by its \<^verbatim>\<open>catch\<close>\<close>
  "store w username password email =
     (let db = load (file_before w);
          now = date_now w in
      case getProp db (js ''users'') of
        Some (VArr xs ps) \<Rightarrow>
          (case find_js (matchesUser (numberToString w) username) xs of
             None \<Rightarrow> rejected w TypeError [Mkdir, ReadFile]
           | Some found \<Rightarrow>
               (let salt = crypto_randomBytes w 16 in
                case crypto_scrypt w password salt 64 of
                  None \<Rightarrow> rejected w ScryptError [Mkdir, ReadFile]
                | Some derived \<Rightarrow>
                    (case upsert db found (crypto_randomUUID w) username email (toHex salt)
                            (toHex derived) now of
                       None \<Rightarrow> rejected w TypeError [Mkdir, ReadFile]
                     | Some db' \<Rightarrow> persist w db' [Mkdir, ReadFile])))
      | _ \<Rightarrow> rejected w TypeError [Mkdir, ReadFile])"

definition main :: "process_env \<Rightarrow> world \<Rightarrow> result" where
  \<comment> \<open>\<^verbatim>\<open>!username\<close> and \<^verbatim>\<open>!password\<close> hold for \<^verbatim>\<open>null\<close> and for the empty string\<close>
  "main env w =
     (case cleanUsername (ADMIN_USER env) of
        None \<Rightarrow> usage w (js ''Invalid ADMIN_USER (3-32 chars, letters/digits/._- only).'')
      | Some username \<Rightarrow>
          if username = []
          then usage w (js ''Invalid ADMIN_USER (3-32 chars, letters/digits/._- only).'')
          else
            (case normalizePassword (ADMIN_PASS env) of
               None \<Rightarrow> usage w (js ''Invalid ADMIN_PASS (min 8 chars).'')
             | Some password \<Rightarrow>
                 if password = [] then usage w (js ''Invalid ADMIN_PASS (min 8 chars).'')
                 else
                   (let email = (if ADMIN_EMAIL env \<noteq> [] then normalizeEmail (ADMIN_EMAIL env)
                                 else None) in
                    if ADMIN_EMAIL env \<noteq> [] \<and> falsy email
                    then usage w (js ''Invalid ADMIN_EMAIL.'')
                    else store w username password email)))"

definition script :: "process_env \<Rightarrow> world \<Rightarrow> result" where
  \<comment> \<open>the statements of the module, top to bottom\<close>
  "script env w =
     (if ADMIN_USER env = [] then usage w (js ''Missing ADMIN_USER.'')
      else if ADMIN_PASS env = [] then usage w (js ''Missing ADMIN_PASS.'')
      else main env w)"


section \<open>Notions of the specification\<close>

definition usersOf :: "jsval \<Rightarrow> jsval list" where
  \<comment> \<open>the records of a collection, in order\<close>
  "usersOf db = (case getProp db (js ''users'') of Some (VArr xs ps) \<Rightarrow> xs | _ \<Rightarrow> [])"

definition hasUsername :: "jsstring \<Rightarrow> jsval \<Rightarrow> bool" where
  \<comment> \<open>a record whose \<^verbatim>\<open>username\<close> is this string\<close>
  "hasUsername username x \<longleftrightarrow> getProp x (js ''username'') = Some (VStr username)"

definition collectionShape :: "json \<Rightarrow> bool" where
  \<comment> \<open>an object with a sequence-valued \<^verbatim>\<open>users\<close> field\<close>
  "collectionShape j \<longleftrightarrow>
     (case j of
        JObj ps \<Rightarrow> (case map_of ps (js ''users'') of Some (JArr xs) \<Rightarrow> True | _ \<Rightarrow> False)
      | _ \<Rightarrow> False)"

definition field :: "json \<Rightarrow> jsstring \<Rightarrow> json option" where
  \<comment> \<open>the value of a key of a JSON object\<close>
  "field j k = (case j of JObj ps \<Rightarrow> map_of ps k | _ \<Rightarrow> None)"

definition isHex :: "jsstring \<Rightarrow> bool" where
  "isHex s \<longleftrightarrow> list_all (\<lambda>c. c \<in> set (js ''0123456789abcdef'')) s"

section \<open>Concrete runs\<close>

text \<open>
  Inputs for the closed theorems below: a world in which no call fails, and environments
  with the username \<^verbatim>\<open>root-ops\<close> and the password \<^verbatim>\<open>correcthorse1\<close>. No \<^verbatim>\<open>username\<close> in
  their files is a number, so the number format of the world is never asked.
\<close>

definition calm :: world where
  "calm = \<lparr>file_before = Absent,
     date_now = js ''2026-11-02T10:00:00.000Z'',
     crypto_randomUUID = js ''6f1c2a9e-0000-4000-8000-000000000001'',
     crypto_randomBytes = (\<lambda>n. replicate n 0xAB),
     crypto_scrypt = (\<lambda>p s n. Some (replicate n 0x5C)),
     writeFile_error = None, rename_error = None,
     numberToString = (\<lambda>r. js ''0'')\<rparr>"

definition env_example :: process_env where
  "env_example = \<lparr>env_ADMIN_USER = Some (js ''root-ops''), env_ADMIN_USERNAME = None,
     env_ADMIN_PASS = Some (js ''correcthorse1''), env_ADMIN_PASSWORD = None,
     env_ADMIN_EMAIL = None\<rparr>"

definition exampleDb :: jsval where
  "exampleDb = VObj [(js ''users'', VArr [newUser (js ''6f1c2a9e-0000-4000-8000-000000000001'')
     (js ''root-ops'') None (toHex (replicate 16 0xAB)) (toHex (replicate 64 0x5C))
     (js ''2026-11-02T10:00:00.000Z'')] [])]"

definition env_blank_email :: process_env where
  "env_blank_email = env_example\<lparr>env_ADMIN_EMAIL := Some (js '' '')\<rparr>"

definition env_bad_email :: process_env where
  "env_bad_email = env_example\<lparr>env_ADMIN_EMAIL := Some (js ''not-an-email'')\<rparr>"

definition stale_record :: json where
  "stale_record = JObj [(js ''username'', JStr (js ''root-ops'')), (js ''createdAt'', JNum 0)]"

definition stale_store :: json where
  "stale_store = JObj [(js ''users'', JArr [stale_record])]"

definition stale_updated :: jsval where
  "stale_updated = VObj [
     (js ''username'', VStr (js ''root-ops'')),
     (js ''createdAt'', VStr (js ''2026-11-02T10:00:00.000Z'')),
     (js ''role'', VStr (js ''admin'')),
     (js ''salt'', VStr (toHex (replicate 16 0xAB))),
     (js ''passHash'', VStr (toHex (replicate 64 0x5C))),
     (js ''quota'', VNum (- 1)),
     (js ''unlocked'', VArr [] []),
     (js ''contentTokens'', VArr [] []),
     (js ''disabled'', VBool False),
     (js ''accessUntilMs'', VNull)]"

definition dated_record :: json where
  "dated_record = JObj [(js ''username'', JStr (js ''root-ops'')),
     (js ''createdAt'', JStr (js ''2020-05-05T05:05:05.000Z''))]"

definition dated_updated :: jsval where
  "dated_updated = VObj [
     (js ''username'', VStr (js ''root-ops'')),
     (js ''createdAt'', VStr (js ''2020-05-05T05:05:05.000Z'')),
     (js ''role'', VStr (js ''admin'')),
     (js ''salt'', VStr (toHex (replicate 16 0xAB))),
     (js ''passHash'', VStr (toHex (replicate 64 0x5C))),
     (js ''quota'', VNum (- 1)),
     (js ''unlocked'', VArr [] []),
     (js ''contentTokens'', VArr [] []),
     (js ''disabled'', VBool False),
     (js ''accessUntilMs'', VNull)]"





definition calm2 :: world where
  "calm2 = \<lparr>file_before = Text (JSON_stringify exampleDb),
     date_now = js ''2026-11-03T08:30:00.000Z'',
     crypto_randomUUID = js ''6f1c2a9e-0000-4000-8000-000000000002'',
     crypto_randomBytes = (\<lambda>n. replicate n 0xCD),
     crypto_scrypt = (\<lambda>p s n. Some (replicate n 0x7E)),
     writeFile_error = None, rename_error = None,
     numberToString = (\<lambda>r. js ''0'')\<rparr>"





definition env_missing :: process_env where
  "env_missing = \<lparr>env_ADMIN_USER = None, env_ADMIN_USERNAME = None,
     env_ADMIN_PASS = Some (js ''correcthorse1''), env_ADMIN_PASSWORD = None,
     env_ADMIN_EMAIL = None\<rparr>"

section \<open>Strings: auxiliary facts\<close>

lemma word16_range:
  fixes c :: "16 word"
  assumes "a \<le> c" "c \<le> b"
  shows "c \<in> of_nat ` {unat a..unat b}"
proof -
  have "unat a \<le> unat c" "unat c \<le> unat b"
    using assms by (simp_all add: word_le_nat_alt)
  moreover have "c = of_nat (unat c)" by simp
  ultimately show ?thesis by (metis atLeastAtMost_iff imageI)
qed

lemma trim_decomp:
  "\<exists>w1 w2. s = w1 @ trim s @ w2 \<and> list_all isWhiteSpace w1 \<and> list_all isWhiteSpace w2"
proof -
  let ?P = isWhiteSpace
  let ?r = "dropWhile ?P s"
  have "rev (dropWhile ?P (rev ?r)) @ rev (takeWhile ?P (rev ?r)) = ?r"
    by (simp only: rev_append [symmetric] takeWhile_dropWhile_id rev_rev_ident)
  then have r: "?r = trim s @ rev (takeWhile ?P (rev ?r))"
    by (simp add: trim_def)
  have "s = takeWhile ?P s @ ?r" by simp
  with r have "s = takeWhile ?P s @ trim s @ rev (takeWhile ?P (rev ?r))" by simp
  moreover have "list_all ?P (takeWhile ?P s)"
    by (simp add: list_all_iff) (meson set_takeWhileD)
  moreover have "list_all ?P (rev (takeWhile ?P (rev ?r)))"
    by (simp add: list_all_iff) (meson set_takeWhileD)
  ultimately show ?thesis by blast
qed

lemma indexOf_ge: "- 1 \<le> indexOf s p"
  by (induction s) (auto simp: Let_def)

lemma indexOf_single:
  "indexOf s [c] = (if c \<in> set s then int (length (takeWhile (\<lambda>x. x \<noteq> c) s)) else - 1)"
  by (induction s) (auto simp: Let_def)

lemma includes_js_sublist: "includes_js s p \<longleftrightarrow> sublist p s"
proof (induction s)
  case Nil
  show ?case by (simp add: includes_js_def)
next
  case (Cons x xs)
  have "indexOf xs p \<noteq> - 1 \<longleftrightarrow> \<not> indexOf xs p < 0"
    using indexOf_ge [of xs p] by arith
  with Cons show ?case
    by (auto simp: includes_js_def Let_def sublist_Cons_right)
qed


lemma js_at [simp]: "js ''@'' = [0x40]" by (simp add: js_def)
lemma js_dot [simp]: "js ''.'' = [0x2E]" by (simp add: js_def)
lemma js_dotdot [simp]: "js ''..'' = [0x2E, 0x2E]" by (simp add: js_def)

lemma split_at_first:
  assumes "c \<in> set e"
  shows "e = takeWhile (\<lambda>x. x \<noteq> c) e @ c # drop (Suc (length (takeWhile (\<lambda>x. x \<noteq> c) e))) e"
proof -
  let ?l = "takeWhile (\<lambda>x. x \<noteq> c) e"
  have "dropWhile (\<lambda>x. x \<noteq> c) e \<noteq> []" using assms by (simp add: dropWhile_eq_Nil_conv) 
  moreover have "hd (dropWhile (\<lambda>x. x \<noteq> c) e) = c"
    using assms by (metis (mono_tags, lifting) calculation hd_dropWhile)
  ultimately have "dropWhile (\<lambda>x. x \<noteq> c) e = c # tl (dropWhile (\<lambda>x. x \<noteq> c) e)"
    by (metis list.collapse)
  moreover have "tl (dropWhile (\<lambda>x. x \<noteq> c) e) = drop (Suc (length ?l)) e"
    by (metis drop_Suc dropWhile_eq_drop tl_drop)
  ultimately show ?thesis
    by (metis takeWhile_dropWhile_id)
qed

lemma normalizeEmail_SomeD:
  assumes "normalizeEmail raw = Some e"
  shows "e = toLowerCase (trim raw) \<and>
    (\<exists>l d. e = l @ js ''@'' @ d \<and> l \<noteq> [] \<and> list_all localClass l \<and> list_all domainClass d \<and>
       3 \<le> length d \<and> length l \<le> 64 \<and> length e \<le> 254 \<and> sublist (js ''.'') d \<and>
       \<not> prefix (js ''.'') d \<and> \<not> suffix (js ''.'') d \<and> \<not> sublist (js ''..'') d)"
proof -
  define t where "t = toLowerCase (trim raw)"
  define l where "l = takeWhile (\<lambda>x. x \<noteq> 0x40) t"
  define d where "d = drop (Suc (length l)) t"
  from assms have e: "e = t"
    by (simp add: normalizeEmail_def Let_def t_def split: if_splits)
  from assms have mem: "0x40 \<in> set t"
    by (auto simp add: normalizeEmail_def Let_def t_def indexOf_single split: if_splits)
  then have at: "indexOf t (js ''@'') = int (length l)"
    by (simp add: indexOf_single l_def)
  have nat_at: "nat (int (length l)) = length l" by simp
  have tld: "t = l @ js ''@'' @ d"
    using split_at_first [OF mem] by (simp add: l_def d_def)
  have sl: "slice t 0 (length l) = l" 
    by (simp add: slice_def l_def) (metis append_eq_conv_conj takeWhile_dropWhile_id)
  have sf: "sliceFrom t (length l + 1) = d" by (simp add: sliceFrom_def d_def)
  from assms have "l \<noteq> [] \<and> list_all localClass l \<and> list_all domainClass d \<and>
       3 \<le> length d \<and> length l \<le> 64 \<and> length t \<le> 254 \<and> sublist (js ''.'') d \<and>
       \<not> prefix (js ''.'') d \<and> \<not> suffix (js ''.'') d \<and> \<not> sublist (js ''..'') d"
    unfolding normalizeEmail_def Let_def t_def [symmetric] at nat_at sl sf
    by (simp add: testAll_def startsWith_def endsWith_def includes_js_sublist split: if_splits)
  with e tld show ?thesis unfolding t_def by blast
qed


lemma localClass_plain:
  assumes "localClass c"
  shows "lowerUnit c = [c]" and "\<not> isWhiteSpace c" and "c \<noteq> 0x40"
  using assms
  by (auto simp add: localClass_def lowerUnit_def isWhiteSpace_def between_def js_def word_le_nat_alt)

lemma domainClass_plain:
  assumes "domainClass c"
  shows "lowerUnit c = [c]" and "\<not> isWhiteSpace c" and "c \<noteq> 0x40"
  using assms
  by (auto simp add: domainClass_def lowerUnit_def isWhiteSpace_def between_def js_def word_le_nat_alt)

lemma lowerUnit_at: "0x40 \<in> set (lowerUnit c) \<longleftrightarrow> c = 0x40"
  by (auto simp add: lowerUnit_def between_def js_def word_le_nat_alt unat_word_ariths)

lemma lowerUnit_dot: "0x2E \<in> set (lowerUnit c) \<longleftrightarrow> c = 0x2E"
  by (auto simp add: lowerUnit_def between_def js_def word_le_nat_alt unat_word_ariths)

lemma lowerUnit_fix [simp]: "lowerUnit 0x40 = [0x40]" "lowerUnit 0x2E = [0x2E]"
  by (simp_all add: lowerUnit_def between_def js_def)

lemma lowerUnit_ws: "isWhiteSpace c \<Longrightarrow> lowerUnit c = [c]"
  by (auto simp add: lowerUnit_def isWhiteSpace_def between_def js_def word_le_nat_alt)


lemma toLowerCase_append [simp]: "toLowerCase (a @ b) = toLowerCase a @ toLowerCase b"
  by (simp add: toLowerCase_def)

lemma toLowerCase_Cons: "toLowerCase (c # s) = lowerUnit c @ toLowerCase s"
  by (simp add: toLowerCase_def)

lemma toLowerCase_Nil [simp]: "toLowerCase [] = []"
  by (simp add: toLowerCase_def)

lemma toLowerCase_eq_Nil [simp]: "toLowerCase s = [] \<longleftrightarrow> s = []"
  by (cases s) (auto simp add: toLowerCase_Cons lowerUnit_def js_def)

lemma set_toLowerCase: "set (toLowerCase s) = (\<Union>c\<in>set s. set (lowerUnit c))"
  by (simp add: toLowerCase_def)

lemma at_in_toLowerCase: "0x40 \<in> set (toLowerCase s) \<longleftrightarrow> 0x40 \<in> set s"
  by (auto simp add: set_toLowerCase lowerUnit_at)

lemma dot_in_toLowerCase: "0x2E \<in> set (toLowerCase s) \<longleftrightarrow> 0x2E \<in> set s"
  by (auto simp add: set_toLowerCase lowerUnit_dot)

lemma split_unique:
  assumes "a @ c # b = a' @ c # b'" "c \<notin> set a" "c \<notin> set a'"
  shows "a = a' \<and> b = b'"
  using assms
proof (induction a arbitrary: a')
  case Nil
  then show ?case by (cases a') auto
next
  case (Cons x a)
  then show ?case by (cases a') auto
qed

lemma toLowerCase_plain:
  assumes "\<forall>c\<in>set s. lowerUnit c = [c]"
  shows "toLowerCase s = s"
  using assms by (induction s) (simp_all add: toLowerCase_Cons)

lemma trim_plain:
  assumes "s \<noteq> []" "\<not> isWhiteSpace (hd s)" "\<not> isWhiteSpace (last s)"
  shows "trim s = s"
proof -
  have 1: "dropWhile isWhiteSpace s = s"
    using assms(1,2) by (cases s) simp_all
  have "dropWhile isWhiteSpace (rev s) = rev s"
    using assms(1,3) by (cases s rule: rev_cases) simp_all
  with 1 show ?thesis by (simp add: trim_def)
qed


lemma count_ws: "list_all isWhiteSpace w \<Longrightarrow> count_list w 0x40 = 0"
  by (induction w) (auto simp add: isWhiteSpace_def)

lemma count_list_0: "count_list xs x = 0 \<longleftrightarrow> x \<notin> set xs"
  by (induction xs) auto

lemma sublist_toLowerCase_dots:
  assumes "sublist [0x2E, 0x2E] s"
  shows "sublist [0x2E, 0x2E] (toLowerCase s)"
proof -
  from assms obtain u v where "s = u @ [0x2E, 0x2E] @ v" by (auto simp add: sublist_def)
  then have "toLowerCase s = toLowerCase u @ [0x2E, 0x2E] @ toLowerCase v"
    by (simp add: toLowerCase_Cons)
  then show ?thesis unfolding sublist_def by blast
qed

lemma sublist_dots_ws:
  assumes "sublist [0x2E, 0x2E] (s @ w)" "list_all isWhiteSpace w"
  shows "sublist [0x2E, 0x2E] s"
proof -
  have nodot: "0x2E \<notin> set w"
    using assms(2) by (auto simp add: list_all_iff isWhiteSpace_def)
  from assms(1) consider "sublist [0x2E, 0x2E] s" | "sublist [0x2E, 0x2E] w"
    | xs1 xs2 where "[0x2E, 0x2E] = xs1 @ xs2" "suffix xs1 s" "prefix xs2 w"
    by (auto simp add: sublist_append)
  then show ?thesis
  proof cases
    case 1 then show ?thesis .
  next
    case 2
    then have "set [0x2E, 0x2E :: unit16] \<subseteq> set w" by (rule set_mono_sublist)
    with nodot show ?thesis by simp
  next
    case 3
    show ?thesis
    proof (cases xs2)
      case Nil
      with 3 show ?thesis by (simp add: suffix_imp_sublist)
    next
      case (Cons y ys)
      with 3(1) have "y = 0x2E" by (cases xs1; cases "tl xs1") auto
      moreover from Cons 3(3) have "y \<in> set w" by (auto simp add: prefix_def)
      ultimately show ?thesis using nodot by simp
    qed
  qed
qed

lemma normalizeEmail_raw_shape:
  assumes ok: "normalizeEmail raw = Some e"
  shows "count_list raw 0x40 = 1"
    and "raw = l @ js ''@'' @ d \<Longrightarrow>
         l \<noteq> [] \<and> d \<noteq> [] \<and> sublist (js ''.'') d \<and> \<not> sublist (js ''..'') d \<and>
         \<not> prefix (js ''.'') d \<and> \<not> suffix (js ''.'') d"
    and "trim e = e" and "toLowerCase e = e"
proof -
  from normalizeEmail_SomeD [OF ok] obtain l' d' where
    e: "e = toLowerCase (trim raw)" and eld: "e = l' @ [0x40] @ d'" and l': "l' \<noteq> []"
    and cl: "list_all localClass l'" and cd: "list_all domainClass d'" and d3: "3 \<le> length d'"
    and dot: "sublist [0x2E] d'" and npre: "\<not> prefix [0x2E] d'" and nsuf: "\<not> suffix [0x2E] d'"
    and ndd: "\<not> sublist [0x2E, 0x2E] d'"
    by auto
  have d': "d' \<noteq> []" using d3 by auto
  have plain: "\<forall>c\<in>set e. lowerUnit c = [c] \<and> \<not> isWhiteSpace c"
  proof
    fix c assume "c \<in> set e"
    then consider "c \<in> set l'" | "c = 0x40" | "c \<in> set d'" by (auto simp add: eld)
    then show "lowerUnit c = [c] \<and> \<not> isWhiteSpace c"
    proof cases
      case 1 then show ?thesis using cl localClass_plain by (simp add: list_all_iff)
    next
      case 2 then show ?thesis by (simp add: isWhiteSpace_def)
    next
      case 3 then show ?thesis using cd domainClass_plain by (simp add: list_all_iff)
    qed
  qed
  have atl': "0x40 \<notin> set l'" using cl localClass_plain(3) by (auto simp add: list_all_iff)
  have atd': "0x40 \<notin> set d'" using cd domainClass_plain(3) by (auto simp add: list_all_iff)
  show "toLowerCase e = e" using plain by (simp add: toLowerCase_plain)
  have "\<not> isWhiteSpace (hd e)" "\<not> isWhiteSpace (last e)"
    using plain l' by (simp_all add: eld)
  then show "trim e = e" by (intro trim_plain) (simp_all add: eld)
  obtain w1 w2 where raw: "raw = w1 @ trim raw @ w2"
    and w1: "list_all isWhiteSpace w1" and w2: "list_all isWhiteSpace w2"
    using trim_decomp by blast
  define t where "t = trim raw"
  have "0x40 \<in> set t" using eld e by (metis at_in_toLowerCase in_set_conv_decomp t_def append_Cons append_Nil)
  from split_at_first [OF this] obtain lt dt where t: "t = lt @ [0x40] @ dt" and atlt: "0x40 \<notin> set lt"
    by (metis (mono_tags, lifting) append_Cons append_Nil set_takeWhileD)
  have "toLowerCase lt @ 0x40 # toLowerCase dt = l' @ 0x40 # d'"
    using e eld t by (simp add: t_def [symmetric] toLowerCase_Cons)
  then have ll: "toLowerCase lt = l'" and dd: "toLowerCase dt = d'"
    using split_unique [of "toLowerCase lt" "0x40" "toLowerCase dt" l' d'] atl' atlt
    by (simp_all add: at_in_toLowerCase)
  have atdt: "0x40 \<notin> set dt" using atd' dd at_in_toLowerCase by blast
  have c1: "count_list w1 0x40 = 0" and c2: "count_list w2 0x40 = 0"
    using w1 w2 by (simp_all add: count_ws)
  have rawt: "raw = (w1 @ lt) @ 0x40 # (dt @ w2)"
    using raw t by (simp add: t_def)
  have "count_list raw 0x40 = count_list w1 0x40 + count_list lt 0x40 + 1 + count_list dt 0x40 + count_list w2 0x40"
    by (subst rawt) simp
  then show "count_list raw 0x40 = 1"
    using c1 c2 atlt atdt by (simp add: count_list_0)
  assume "raw = l @ js ''@'' @ d"
  then have rawld: "raw = l @ 0x40 # d" by simp
  have atl: "0x40 \<notin> set l"
  proof
    assume "0x40 \<in> set l"
    then have "count_list l 0x40 \<noteq> 0" by (simp add: count_list_0)
    moreover have "count_list raw 0x40 = count_list l 0x40 + 1 + count_list d 0x40"
      by (subst rawld) simp
    ultimately show False using \<open>count_list raw 0x40 = 1\<close> by simp
  qed
  have atw1: "0x40 \<notin> set (w1 @ lt)" using c1 atlt by (simp add: count_list_0)
  have "l = w1 @ lt \<and> d = dt @ w2"
    using split_unique [of l "0x40" d "w1 @ lt" "dt @ w2"] rawld rawt atl atw1 by simp
  then have l: "l = w1 @ lt" and d: "d = dt @ w2" by simp_all
  have lt: "lt \<noteq> []" using ll l' by auto
  have dt: "dt \<noteq> []" using dd d' by auto
  have "0x2E \<in> set d'" using dot by (auto simp add: sublist_def)
  then have "0x2E \<in> set dt" using dd dot_in_toLowerCase by blast
  then have 1: "sublist [0x2E] d" unfolding d by (auto simp add: in_set_conv_decomp sublist_def) (metis append.assoc append_Cons append_Nil)
  have 2: "\<not> sublist [0x2E, 0x2E] d"
    using ndd dd d w2 sublist_dots_ws sublist_toLowerCase_dots by blast
  have 3: "\<not> prefix [0x2E] d"
  proof
    assume "prefix [0x2E] d"
    then have "hd dt = 0x2E" using dt d by (cases dt) auto
    then have "prefix [0x2E] (toLowerCase dt)" using dt by (cases dt) (auto simp add: toLowerCase_Cons)
    with npre dd show False by simp
  qed
  have 4: "\<not> suffix [0x2E] d"
  proof
    assume s: "suffix [0x2E] d"
    have "w2 = []"
    proof (rule ccontr)
      assume "w2 \<noteq> []"
      then have "last d = last w2" "last w2 \<in> set w2" by (simp_all add: d)
      moreover have "last d = 0x2E" using s by (auto simp add: suffix_def)
      ultimately show False using w2 by (auto simp add: list_all_iff isWhiteSpace_def)
    qed
    with s d have "suffix [0x2E] dt" by simp
    then obtain u where "dt = u @ [0x2E]" by (auto simp add: suffix_def)
    then have "toLowerCase dt = toLowerCase u @ [0x2E]" by (simp add: toLowerCase_Cons)
    then have "suffix [0x2E] d'" using dd by (auto simp add: suffix_def)
    with nsuf show False by simp
  qed
  show "l \<noteq> [] \<and> d \<noteq> [] \<and> sublist (js ''.'') d \<and> \<not> sublist (js ''..'') d \<and>
         \<not> prefix (js ''.'') d \<and> \<not> suffix (js ''.'') d"
    using l d lt dt 1 2 3 4 by simp
qed

section \<open>Values and the update: auxiliary facts\<close>

lemma unat_of_char16: "unat (of_char a :: 16 word) = of_char a"
proof -
  have "(of_char a :: nat) < 256" by simp
  then have "(of_char a :: nat) < 65536" by (rule order_less_trans) simp
  then have "unat (of_nat (of_char a) :: 16 word) = of_char a"
    by (simp add: unat_of_nat)
  then show ?thesis by (simp only: of_nat_of_char)
qed

lemma of_char16_inject [simp]: "(of_char a :: 16 word) = of_char b \<longleftrightarrow> a = b"
proof
  assume "(of_char a :: 16 word) = of_char b"
  then have "unat (of_char a :: 16 word) = unat (of_char b :: 16 word)" by simp
  then have "(of_char a :: nat) = of_char b" by (simp only: unat_of_char16)
  then show "a = b" by simp
qed simp

lemma js_inject [simp]: "js a = js b \<longleftrightarrow> a = b"
proof -
  have "inj (of_char :: char \<Rightarrow> 16 word)" by (rule injI) simp
  then show ?thesis by (simp add: js_def inj_map_eq_map)
qed

lemma js_Nil [simp]: "js s = [] \<longleftrightarrow> s = []" "[] = js s \<longleftrightarrow> s = []"
  by (auto simp add: js_def)




lemma getProp_setProp:
  "setProp u k v = Some u' \<Longrightarrow> getProp u' k' = (if k' = k then Some v else getProp u k')"
  by (cases u) (auto simp add: update_conv')

lemma updateUser_getProp:
  assumes "updateUser u un em s h now = Some u'"
  shows "getProp u' k =
     (if k = js ''createdAt''
        then map_option (\<lambda>c. if truthy c then c else VStr now) (getProp u (js ''createdAt''))
      else if k = js ''accessUntilMs'' then Some VNull
      else if k = js ''disabled'' then Some (VBool False)
      else if k = js ''contentTokens''
        then map_option (\<lambda>c. if isArray c then c else VArr [] []) (getProp u (js ''contentTokens''))
      else if k = js ''unlocked''
        then map_option (\<lambda>c. if isArray c then c else VArr [] []) (getProp u (js ''unlocked''))
      else if k = js ''quota''
        then map_option (\<lambda>c. if typeof c = js ''number'' then c else VNum (- 1)) (getProp u (js ''quota''))
      else if k = js ''passHash'' then Some (VStr h)
      else if k = js ''salt'' then Some (VStr s)
      else if k = js ''role'' then Some (VStr (js ''admin''))
      else if k = js ''email''
        then (case em of None \<Rightarrow> getProp u k | Some e \<Rightarrow> if e \<noteq> [] then Some (VStr e) else getProp u k)
      else if k = js ''username'' then Some (VStr un)
      else getProp u k)"
proof -
  from assms obtain u1 u2 u3 u4 u5 u6 u7 u8 u9 u10 u11 q ul ct ca where
    1: "setProp u (js ''username'') (VStr un) = Some u1" and
    2: "(case em of None \<Rightarrow> Some u1
         | Some e \<Rightarrow> if e \<noteq> [] then setProp u1 (js ''email'') (VStr e) else Some u1) = Some u2" and
    3: "setProp u2 (js ''role'') (VStr (js ''admin'')) = Some u3" and
    4: "setProp u3 (js ''salt'') (VStr s) = Some u4" and
    5: "setProp u4 (js ''passHash'') (VStr h) = Some u5" and
    q: "getProp u5 (js ''quota'') = Some q" and
    6: "(if typeof q \<noteq> js ''number'' then setProp u5 (js ''quota'') (VNum (- 1)) else Some u5) = Some u6" and
    ul: "getProp u6 (js ''unlocked'') = Some ul" and
    7: "(if \<not> isArray ul then setProp u6 (js ''unlocked'') (VArr [] []) else Some u6) = Some u7" and
    ct: "getProp u7 (js ''contentTokens'') = Some ct" and
    8: "(if \<not> isArray ct then setProp u7 (js ''contentTokens'') (VArr [] []) else Some u7) = Some u8" and
    9: "setProp u8 (js ''disabled'') (VBool False) = Some u9" and
    10: "setProp u9 (js ''accessUntilMs'') VNull = Some u10" and
    ca: "getProp u10 (js ''createdAt'') = Some ca" and
    11: "(if \<not> truthy ca then setProp u10 (js ''createdAt'') (VStr now) else Some u10) = Some u11" and
    12: "u' = u11"
    unfolding updateUser_def by (auto simp add: bind_eq_Some_conv)
  have g1: "\<And>k. getProp u1 k = (if k = js ''username'' then Some (VStr un) else getProp u k)"
    using 1 by (simp add: getProp_setProp)
  have g2: "\<And>k. getProp u2 k = (if k = js ''email'' \<and> (\<exists>e. em = Some e \<and> e \<noteq> [])
      then Some (VStr (the em)) else getProp u1 k)"
    using 2 by (auto simp add: getProp_setProp split: option.splits if_splits)
  have g3: "\<And>k. getProp u3 k = (if k = js ''role'' then Some (VStr (js ''admin'')) else getProp u2 k)"
    using 3 by (simp add: getProp_setProp)
  have g4: "\<And>k. getProp u4 k = (if k = js ''salt'' then Some (VStr s) else getProp u3 k)"
    using 4 by (simp add: getProp_setProp)
  have g5: "\<And>k. getProp u5 k = (if k = js ''passHash'' then Some (VStr h) else getProp u4 k)"
    using 5 by (simp add: getProp_setProp)
  have g6: "\<And>k. getProp u6 k = (if k = js ''quota'' \<and> typeof q \<noteq> js ''number''
      then Some (VNum (- 1)) else getProp u5 k)"
    using 6 by (auto simp add: getProp_setProp split: if_splits)
  have g7: "\<And>k. getProp u7 k = (if k = js ''unlocked'' \<and> \<not> isArray ul
      then Some (VArr [] []) else getProp u6 k)"
    using 7 by (auto simp add: getProp_setProp split: if_splits)
  have g8: "\<And>k. getProp u8 k = (if k = js ''contentTokens'' \<and> \<not> isArray ct
      then Some (VArr [] []) else getProp u7 k)"
    using 8 by (auto simp add: getProp_setProp split: if_splits)
  have g9: "\<And>k. getProp u9 k = (if k = js ''disabled'' then Some (VBool False) else getProp u8 k)"
    using 9 by (simp add: getProp_setProp)
  have g10: "\<And>k. getProp u10 k = (if k = js ''accessUntilMs'' then Some VNull else getProp u9 k)"
    using 10 by (simp add: getProp_setProp)
  have g11: "\<And>k. getProp u11 k = (if k = js ''createdAt'' \<and> \<not> truthy ca
      then Some (VStr now) else getProp u10 k)"
    using 11 by (auto simp add: getProp_setProp split: if_splits)
  have q': "getProp u (js ''quota'') = Some q"
    using q by (simp add: g1 g2 g3 g4 g5)
  have ul': "getProp u (js ''unlocked'') = Some ul"
    using ul by (simp add: g1 g2 g3 g4 g5 g6)
  have ct': "getProp u (js ''contentTokens'') = Some ct"
    using ct by (simp add: g1 g2 g3 g4 g5 g6 g7)
  have ca': "getProp u (js ''createdAt'') = Some ca"
    using ca by (simp add: g1 g2 g3 g4 g5 g6 g7 g8 g9 g10)
  show ?thesis
    unfolding 12 g11 g10 g9 g8 g7 g6 g5 g4 g3 g2 g1
    by (auto simp add: q' ul' ct' ca' split: option.splits)
qed

lemma map_of_fromJSON:
  "map_of (map (map_prod id fromJSON) ps) k = map_option fromJSON (map_of ps k)"
  by (induction ps) auto

lemma isArray_fromJSON: "isArray (fromJSON j) \<longleftrightarrow> (\<exists>xs. j = JArr xs)"
  by (cases j) auto

lemma load_shape:
  "load f = (case f of
      Text (Json j) \<Rightarrow> if collectionShape j then fromJSON j else emptyDb
    | _ \<Rightarrow> emptyDb)"
  by (auto simp add: load_def readFile_def JSON_parse_def collectionShape_def Let_def
      map_of_fromJSON isArray_fromJSON
      split: fsentry.splits filetext.splits json.splits option.splits)

lemma script_ReadyD:
  assumes "outcome (script env w) = Ready db"
  obtains username password email xs ps found derived where
    "cleanUsername (ADMIN_USER env) = Some username"
    "normalizePassword (ADMIN_PASS env) = Some password"
    "email = (if ADMIN_EMAIL env \<noteq> [] then normalizeEmail (ADMIN_EMAIL env) else None)"
    "getProp (load (file_before w)) (js ''users'') = Some (VArr xs ps)"
    "find_js (matchesUser (numberToString w) username) xs = Some found"
    "crypto_scrypt w password (crypto_randomBytes w 16) 64 = Some derived"
    "upsert (load (file_before w)) found (crypto_randomUUID w) username email
       (toHex (crypto_randomBytes w 16)) (toHex derived) (date_now w) = Some db"
    "writeFile_error w = None" "rename_error w = None"
    "file_after (script env w) = Text (JSON_stringify db)"
    "calls (script env w) = [Mkdir, ReadFile, WriteFile (JSON_stringify db), Rename]"
  using assms
  unfolding script_def main_def store_def persist_def usage_def rejected_def Let_def
  by (auto split: if_splits option.splits jsval.splits)

section \<open>The upsert: auxiliary facts\<close>





lemma hasUsername_matches:
  assumes "hasUsername username x"
  shows "matchesUser nts username x = Some True"
proof -
  from assms have g: "getProp x (js ''username'') = Some (VStr username)"
    by (simp add: hasUsername_def)
  then have "truthy x" by (cases x) auto
  with g show ?thesis by (simp add: matchesUser_def)
qed





lemma newUser_props:
  "getProp (newUser uuid un em s h now) (js ''username'') = Some (VStr un)"
  "getProp (newUser uuid un em s h now) (js ''role'') = Some (VStr (js ''admin''))"
  "getProp (newUser uuid un em s h now) (js ''disabled'') = Some (VBool False)"
  "getProp (newUser uuid un em s h now) (js ''accessUntilMs'') = Some VNull"
  "getProp (newUser uuid un em s h now) (js ''quota'') = Some (VNum (- 1))"
  "getProp (newUser uuid un em s h now) (js ''unlocked'') = Some (VArr [] [])"
  "getProp (newUser uuid un em s h now) (js ''contentTokens'') = Some (VArr [] [])"
  "getProp (newUser uuid un em s h now) (js ''salt'') = Some (VStr s)"
  "getProp (newUser uuid un em s h now) (js ''passHash'') = Some (VStr h)"
  "getProp (newUser uuid un em s h now) (js ''createdAt'') = Some (VStr now)"
  "getProp (newUser uuid un em s h now) (js ''id'') = Some (VStr uuid)"
  by (simp_all add: newUser_def)

section \<open>Runs of the script: auxiliary facts\<close>

lemma trim_Nil [simp]: "trim [] = []"
  by (simp add: trim_def)

lemma cleanUsername_SomeD:
  assumes "cleanUsername raw = Some u"
  shows "u = trim raw" "3 \<le> length u" "length u \<le> 32" "list_all usernameClass u"
  using assms by (auto simp add: cleanUsername_def Let_def testAll_def split: if_splits)

lemma normalizePassword_SomeD:
  assumes "normalizePassword raw = Some p"
  shows "p = raw" "8 \<le> length p" "length p \<le> 256"
  using assms by (auto simp add: normalizePassword_def Let_def split: if_splits)

lemma normalizeEmail_nonempty: "normalizeEmail raw = Some e \<Longrightarrow> e \<noteq> []"
  by (auto simp add: normalizeEmail_def Let_def split: if_splits)

lemma script_valid:
  assumes un: "cleanUsername (ADMIN_USER env) = Some un"
    and pw: "normalizePassword (ADMIN_PASS env) = Some pw"
    and em: "ADMIN_EMAIL env = [] \<or> normalizeEmail (ADMIN_EMAIL env) \<noteq> None"
  shows "script env w = store w un pw
    (if ADMIN_EMAIL env \<noteq> [] then normalizeEmail (ADMIN_EMAIL env) else None)"
proof -
  have 1: "ADMIN_USER env \<noteq> []" "un \<noteq> []"
    using cleanUsername_SomeD [OF un] by auto
  have 2: "ADMIN_PASS env \<noteq> []" "pw \<noteq> []"
    using normalizePassword_SomeD [OF pw] by auto
  have 3: "ADMIN_EMAIL env \<noteq> [] \<Longrightarrow> \<not> falsy (normalizeEmail (ADMIN_EMAIL env))"
    using em normalizeEmail_nonempty [of "ADMIN_EMAIL env"]
    by (auto simp add: falsy_def split: option.splits)
  show ?thesis
    using 1 2 3 by (simp add: script_def main_def un pw Let_def)
qed

lemma store_empty:
  assumes "load (file_before w) = emptyDb"
  shows "store w un pw em =
     (case crypto_scrypt w pw (crypto_randomBytes w 16) 64 of
        None \<Rightarrow> rejected w ScryptError [Mkdir, ReadFile]
      | Some derived \<Rightarrow>
          persist w (VObj [(js ''users'', VArr [newUser (crypto_randomUUID w) un em
            (toHex (crypto_randomBytes w 16)) (toHex derived) (date_now w)] [])])
            [Mkdir, ReadFile])"
  by (simp add: store_def assms emptyDb_def upsert_def withUsers_def Let_def
      split: option.splits)

lemma persist_ok:
  assumes "writeFile_error w = None" "rename_error w = None"
  shows "persist w db done = \<lparr>outcome = Ready db, file_after = Text (JSON_stringify db),
     calls = done @ [WriteFile (JSON_stringify db), Rename]\<rparr>"
  using assms by (simp add: persist_def Let_def)

lemma hexDigit_mem: "n < 16 \<Longrightarrow> hexDigit n \<in> set (js ''0123456789abcdef'')"
  unfolding hexDigit_def by (rule nth_mem) (simp add: js_def)

lemma isHex_hexByte: "isHex (hexByte b)"
proof -
  have "unat b < 2 ^ LENGTH(8)" by (rule unsigned_less)
  then have "unat b < 256" by simp
  then have "unat b div 16 < 16" by simp
  then show ?thesis by (simp add: isHex_def hexByte_def hexDigit_mem)
qed

lemma isHex_toHex: "isHex (toHex bs)"
  using isHex_hexByte by (induction bs) (auto simp add: toHex_def isHex_def)

lemma length_toHex: "length (toHex bs) = 2 * length bs"
  by (induction bs) (simp_all add: toHex_def hexByte_def)

lemma toJSON_newUser:
  "toJSON (newUser uuid un em s h now) = Some (JObj (
     [(js ''id'', JStr uuid), (js ''username'', JStr un)] @
     (case orUndefined em of VStr e \<Rightarrow> [(js ''email'', JStr e)] | _ \<Rightarrow> []) @
     [(js ''role'', JStr (js ''admin'')), (js ''salt'', JStr s), (js ''passHash'', JStr h),
      (js ''quota'', JNum (- 1)), (js ''unlocked'', JArr []), (js ''contentTokens'', JArr []),
      (js ''disabled'', JBool False), (js ''accessUntilMs'', JNull),
      (js ''createdAt'', JStr now)]))"
  by (simp add: newUser_def orUndefined_def map_filter_simps split: option.splits)

lemma run_on_empty:
  assumes empty: "load (file_before w) = emptyDb"
    and un: "cleanUsername (ADMIN_USER env) = Some un"
    and pw: "normalizePassword (ADMIN_PASS env) = Some pw"
    and em: "ADMIN_EMAIL env = [] \<or> normalizeEmail (ADMIN_EMAIL env) \<noteq> None"
    and derived: "crypto_scrypt w pw (crypto_randomBytes w 16) 64 = Some derived"
    and ok: "writeFile_error w = None" "rename_error w = None"
  shows "script env w =
     (let db = VObj [(js ''users'', VArr [newUser (crypto_randomUUID w) un
            (if ADMIN_EMAIL env \<noteq> [] then normalizeEmail (ADMIN_EMAIL env) else None)
            (toHex (crypto_randomBytes w 16)) (toHex derived) (date_now w)] [])] in
      \<lparr>outcome = Ready db, file_after = Text (JSON_stringify db),
       calls = [Mkdir, ReadFile, WriteFile (JSON_stringify db), Rename]\<rparr>)"
  by (simp add: script_valid [OF un pw em] store_empty [OF empty] derived persist_ok [OF ok] Let_def)

lemma trim_ends:
  assumes "trim s \<noteq> []"
  shows "\<not> isWhiteSpace (hd (trim s))" "\<not> isWhiteSpace (last (trim s))"
proof -
  define r where "r = dropWhile isWhiteSpace s"
  define ys where "ys = dropWhile isWhiteSpace (rev r)"
  have t: "trim s = rev ys" by (simp add: trim_def r_def ys_def)
  with assms have ys: "ys \<noteq> []" by simp
  then have "\<not> isWhiteSpace (hd ys)" unfolding ys_def by (rule hd_dropWhile)
  then show "\<not> isWhiteSpace (last (trim s))" using ys by (simp add: t last_rev)
  from ys have r: "r \<noteq> []" by (auto simp add: ys_def)
  then have "\<not> isWhiteSpace (hd r)" unfolding r_def by (rule hd_dropWhile)
  moreover have "last ys = last (rev r)"
  proof -
    have "rev r = takeWhile isWhiteSpace (rev r) @ ys" by (simp add: ys_def)
    then have "last (rev r) = last (takeWhile isWhiteSpace (rev r) @ ys)" by simp
    also have "\<dots> = last ys" using ys by simp
    finally show ?thesis by simp
  qed
  ultimately show "\<not> isWhiteSpace (hd (trim s))" using ys r by (simp add: t hd_rev last_rev)
qed

lemma trim_idem [simp]: "trim (trim s) = trim s"
proof (cases "trim s = []")
  case True
  then show ?thesis by simp
next
  case False
  then show ?thesis using trim_ends [OF False] by (intro trim_plain)
qed

lemma cleanUsername_ADMIN_USER:
  "cleanUsername (ADMIN_USER env) = Some un \<Longrightarrow> un = ADMIN_USER env"
  by (auto dest: cleanUsername_SomeD(1) simp add: ADMIN_USER_def)

lemma env_example_vars:
  "ADMIN_USER env_example = js ''root-ops''"
  "ADMIN_PASS env_example = js ''correcthorse1''"
  "ADMIN_EMAIL env_example = []"
  by (simp_all add: ADMIN_USER_def ADMIN_PASS_def ADMIN_EMAIL_def env_example_def orElse_def
      trim_def js_def isWhiteSpace_def)

lemma cleanUsername_rootops: "cleanUsername (js ''root-ops'') = Some (js ''root-ops'')"
  by (simp add: cleanUsername_def trim_def js_def isWhiteSpace_def testAll_def
      usernameClass_def between_def)

lemma normalizePassword_example:
  "normalizePassword (js ''correcthorse1'') = Some (js ''correcthorse1'')"
  by (simp add: normalizePassword_def js_def)

lemma wf_world_calm: "wf_world calm"
  by (auto simp add: wf_world_def calm_def)

lemma load_simps:
  "load Absent = emptyDb" "load (Failing e) = emptyDb" "load (Text NotJSON) = emptyDb"
  by (simp_all add: load_shape)

lemma script_example:
  "script env_example calm = \<lparr>outcome = Ready exampleDb, file_after = Text (JSON_stringify exampleDb),
     calls = [Mkdir, ReadFile, WriteFile (JSON_stringify exampleDb), Rename]\<rparr>"
proof -
  have "load (file_before calm) = emptyDb" by (simp add: calm_def load_simps)
  moreover have "cleanUsername (ADMIN_USER env_example) = Some (js ''root-ops'')"
    by (simp add: env_example_vars cleanUsername_rootops)
  moreover have "normalizePassword (ADMIN_PASS env_example) = Some (js ''correcthorse1'')"
    by (simp add: env_example_vars normalizePassword_example)
  moreover have "ADMIN_EMAIL env_example = [] \<or> normalizeEmail (ADMIN_EMAIL env_example) \<noteq> None"
    by (simp add: env_example_vars)
  moreover have "crypto_scrypt calm (js ''correcthorse1'') (crypto_randomBytes calm 16) 64 =
      Some (replicate 64 0x5C)"
    by (simp add: calm_def)
  moreover have "writeFile_error calm = None" "rename_error calm = None"
    by (simp_all add: calm_def)
  ultimately have "script env_example calm =
     (let db = VObj [(js ''users'', VArr [newUser (crypto_randomUUID calm) (js ''root-ops'')
            (if ADMIN_EMAIL env_example \<noteq> [] then normalizeEmail (ADMIN_EMAIL env_example) else None)
            (toHex (crypto_randomBytes calm 16)) (toHex (replicate 64 0x5C)) (date_now calm)] [])] in
      \<lparr>outcome = Ready db, file_after = Text (JSON_stringify db),
       calls = [Mkdir, ReadFile, WriteFile (JSON_stringify db), Rename]\<rparr>)"
    by (rule run_on_empty)
  then show ?thesis
    by (simp add: Let_def env_example_vars exampleDb_def) (simp add: calm_def)
qed

lemma JSON_stringify_single:
  "toJSON rec = Some r \<Longrightarrow>
   JSON_stringify (VObj [(js ''users'', VArr [rec] [])]) = Json (JObj [(js ''users'', JArr [r])])"
  by (simp add: JSON_stringify_def map_filter_simps)




lemma env_blank_email_vars:
  "ADMIN_USER env_blank_email = js ''root-ops''"
  "ADMIN_PASS env_blank_email = js ''correcthorse1''"
  "ADMIN_EMAIL env_blank_email = []"
  by (simp_all add: ADMIN_USER_def ADMIN_PASS_def ADMIN_EMAIL_def env_blank_email_def
      env_example_def orElse_def trim_def js_def isWhiteSpace_def)

lemma env_bad_email_vars:
  "ADMIN_USER env_bad_email = js ''root-ops''"
  "ADMIN_PASS env_bad_email = js ''correcthorse1''"
  "ADMIN_EMAIL env_bad_email = js ''not-an-email''"
  by (simp_all add: ADMIN_USER_def ADMIN_PASS_def ADMIN_EMAIL_def env_bad_email_def
      env_example_def orElse_def trim_def js_def isWhiteSpace_def)

lemma normalizeEmail_blank: "normalizeEmail (js '' '') = None"
  by (simp add: normalizeEmail_def trim_def js_def isWhiteSpace_def toLowerCase_def)

lemma normalizeEmail_bad: "normalizeEmail (js ''not-an-email'') = None"
proof -
  have "trim (js ''not-an-email'') = js ''not-an-email''"
    by (simp add: trim_def js_def isWhiteSpace_def)
  moreover have "toLowerCase (js ''not-an-email'') = js ''not-an-email''"
    by (simp add: toLowerCase_def lowerUnit_def js_def between_def)
  moreover have "indexOf (js ''not-an-email'') (js ''@'') = - 1"
    by (simp add: js_def)
  ultimately show ?thesis
    by (simp add: normalizeEmail_def Let_def)
qed

lemma script_not_Ready:
  assumes "\<forall>db. outcome (script env w) \<noteq> Ready db"
  shows "file_after (script env w) = file_before w"
  using assms
  unfolding script_def main_def store_def persist_def usage_def rejected_def Let_def
  by (auto split: if_splits option.splits jsval.splits)

lemma script_Usage:
  assumes "outcome (script env w) = Usage msg"
  shows "calls (script env w) = []"
  using assms
  unfolding script_def main_def store_def persist_def usage_def rejected_def Let_def
  by (auto split: if_splits option.splits jsval.splits)

lemma toJSON_fromJSON [simp]: "toJSON (fromJSON j) = Some j"
proof (induction j)
  case (JArr xs)
  then have "map ((\<lambda>j. case j of None \<Rightarrow> JNull | Some v \<Rightarrow> v) \<circ> (toJSON \<circ> fromJSON)) xs = xs"
    by (induction xs) simp_all
  then show ?case by simp
next
  case (JObj ps)
  have "List.map_filter (\<lambda>(k, j). map_option (Pair k) j)
      (map (map_prod id toJSON \<circ> map_prod id fromJSON) ps) = ps"
    using JObj
  proof (induction ps)
    case Nil
    then show ?case by (simp add: map_filter_simps)
  next
    case (Cons p ps)
    obtain k v where p: "p = (k, v)" by (cases p)
    have "toJSON (fromJSON v) = Some v" using Cons.prems [of p v] by (simp add: p)
    moreover have "List.map_filter (\<lambda>(k, j). map_option (Pair k) j)
      (map (map_prod id toJSON \<circ> map_prod id fromJSON) ps) = ps"
      using Cons.prems by (intro Cons.IH) auto
    ultimately show ?case by (simp add: p map_filter_simps id_def comp_def)
  qed
  then show ?case by simp
qed simp_all


lemma store_Ready:
  assumes "getProp (load (file_before w)) (js ''users'') = Some (VArr xs ps)"
    and "find_js (matchesUser (numberToString w) un) xs = Some found"
    and "crypto_scrypt w pw (crypto_randomBytes w 16) 64 = Some derived"
    and "upsert (load (file_before w)) found (crypto_randomUUID w) un em
       (toHex (crypto_randomBytes w 16)) (toHex derived) (date_now w) = Some db"
    and "writeFile_error w = None" "rename_error w = None"
  shows "store w un pw em = \<lparr>outcome = Ready db, file_after = Text (JSON_stringify db),
     calls = [Mkdir, ReadFile, WriteFile (JSON_stringify db), Rename]\<rparr>"
  using assms by (simp add: store_def persist_def Let_def)

lemma script_example_store:
  "script env_example w = store w (js ''root-ops'') (js ''correcthorse1'') None"
  using script_valid [of env_example "js ''root-ops''" "js ''correcthorse1''" w]
  by (simp add: env_example_vars cleanUsername_rootops normalizePassword_example)

lemma load_stale_store:
  "load (Text (Json stale_store)) = VObj [(js ''users'', VArr [fromJSON stale_record] [])]"
  by (simp add: load_shape collectionShape_def stale_store_def)

lemma updateUser_stale:
  "updateUser (fromJSON stale_record) (js ''root-ops'') None (toHex (replicate 16 0xAB))
     (toHex (replicate 64 0x5C)) (js ''2026-11-02T10:00:00.000Z'') = Some stale_updated"
  by (simp add: updateUser_def stale_record_def stale_updated_def)

lemma script_stale:
  "script env_example (calm\<lparr>file_before := Text (Json stale_store)\<rparr>) =
     \<lparr>outcome = Ready (VObj [(js ''users'', VArr [stale_updated] [])]),
      file_after = Text (JSON_stringify (VObj [(js ''users'', VArr [stale_updated] [])])),
      calls = [Mkdir, ReadFile,
        WriteFile (JSON_stringify (VObj [(js ''users'', VArr [stale_updated] [])])), Rename]\<rparr>"
proof -
  let ?w = "calm\<lparr>file_before := Text (Json stale_store)\<rparr>"
  have 1: "getProp (load (file_before ?w)) (js ''users'') = Some (VArr [fromJSON stale_record] [])"
    by (simp add: load_stale_store)
  have 2: "find_js (matchesUser (numberToString ?w) (js ''root-ops'')) [fromJSON stale_record] =
      Some (Some 0)"
    by (simp add: matchesUser_def stale_record_def)
  have 3: "crypto_scrypt ?w (js ''correcthorse1'') (crypto_randomBytes ?w 16) 64 =
      Some (replicate 64 0x5C)"
    by (simp add: calm_def)
  have 4: "upsert (load (file_before ?w)) (Some 0) (crypto_randomUUID ?w) (js ''root-ops'') None
       (toHex (crypto_randomBytes ?w 16)) (toHex (replicate 64 0x5C)) (date_now ?w) =
      Some (VObj [(js ''users'', VArr [stale_updated] [])])"
  proof -
    have "crypto_randomBytes ?w 16 = replicate 16 0xAB" "date_now ?w = js ''2026-11-02T10:00:00.000Z''"
      by (simp_all add: calm_def)
    moreover have "truthy (fromJSON stale_record)" by (simp add: stale_record_def)
    ultimately show ?thesis
      by (simp add: upsert_def load_stale_store updateUser_stale withUsers_def)
  qed
  have 5: "writeFile_error ?w = None" "rename_error ?w = None" by (simp_all add: calm_def)
  show ?thesis
    unfolding script_example_store by (rule store_Ready [OF 1 2 3 4 5])
qed

lemma getProp_fromJSON_obj:
  "getProp (fromJSON (JObj l)) k = Some (case map_of l k of None \<Rightarrow> VUndefined | Some v \<Rightarrow> fromJSON v)"
  by (simp add: map_of_fromJSON split: option.splits)

lemma createdAt_read_back:
  assumes "toJSON (newUser uuid un em s h now) = Some r"
  shows "getProp (fromJSON r) (js ''createdAt'') = Some (VStr now)"
    and "getProp (fromJSON r) (js ''username'') = Some (VStr un)"
    and "getProp (fromJSON r) (js ''id'') = Some (VStr uuid)"
    and "getProp (fromJSON r) (js ''salt'') = Some (VStr s)"
    and "getProp (fromJSON r) (js ''passHash'') = Some (VStr h)"
    and "\<exists>l. fromJSON r = VObj l"
  using assms
  by (auto simp add: toJSON_newUser getProp_fromJSON_obj split: jsval.splits)

lemma updateUser_object:
  assumes "updateUser u un em s h now = Some u'"
  shows "(\<exists>ps. u = VObj ps) \<or> (\<exists>xs ps. u = VArr xs ps)"
  using assms by (cases u) (simp_all add: updateUser_def)

lemma updateUser_getProp_Some:
  assumes "updateUser u un em s h now = Some u'"
  shows "\<exists>c. getProp u k = Some c"
  using updateUser_object [OF assms] by auto

lemma updateUser_dated:
  "updateUser (fromJSON dated_record) (js ''root-ops'') None (toHex (replicate 16 0xAB))
     (toHex (replicate 64 0x5C)) (js ''2026-11-02T10:00:00.000Z'') = Some dated_updated"
  by (simp add: updateUser_def dated_record_def dated_updated_def)







lemma setProp_VObj: "\<exists>l'. setProp (VObj l) k v = Some (VObj l')"
  by simp

lemma getProp_VObj: "\<exists>c. getProp (VObj l) k = Some c"
  by simp

lemma updateUser_VObj: "\<exists>l'. updateUser (VObj l) un em s h now = Some (VObj l')"
proof -
  obtain l1 where 1: "setProp (VObj l) (js ''username'') (VStr un) = Some (VObj l1)"
    using setProp_VObj by blast
  have "\<exists>l2. (case em of None \<Rightarrow> Some (VObj l1)
      | Some e \<Rightarrow> if e \<noteq> [] then setProp (VObj l1) (js ''email'') (VStr e) else Some (VObj l1))
      = Some (VObj l2)"
    by (cases em) simp_all
  then obtain l2 where 2: "(case em of None \<Rightarrow> Some (VObj l1)
      | Some e \<Rightarrow> if e \<noteq> [] then setProp (VObj l1) (js ''email'') (VStr e) else Some (VObj l1))
      = Some (VObj l2)"
    by blast
  obtain l3 where 3: "setProp (VObj l2) (js ''role'') (VStr (js ''admin'')) = Some (VObj l3)"
    using setProp_VObj by blast
  obtain l4 where 4: "setProp (VObj l3) (js ''salt'') (VStr s) = Some (VObj l4)"
    using setProp_VObj by blast
  obtain l5 where 5: "setProp (VObj l4) (js ''passHash'') (VStr h) = Some (VObj l5)"
    using setProp_VObj by blast
  obtain q where q: "getProp (VObj l5) (js ''quota'') = Some q"
    using getProp_VObj by blast
  have "\<exists>l6. (if typeof q \<noteq> js ''number''
      then setProp (VObj l5) (js ''quota'') (VNum (- 1)) else Some (VObj l5)) = Some (VObj l6)"
    by simp
  then obtain l6 where 6: "(if typeof q \<noteq> js ''number''
      then setProp (VObj l5) (js ''quota'') (VNum (- 1)) else Some (VObj l5)) = Some (VObj l6)"
    by blast
  obtain ul where ul: "getProp (VObj l6) (js ''unlocked'') = Some ul"
    using getProp_VObj by blast
  have "\<exists>l7. (if \<not> isArray ul
      then setProp (VObj l6) (js ''unlocked'') (VArr [] []) else Some (VObj l6)) = Some (VObj l7)"
    by simp
  then obtain l7 where 7: "(if \<not> isArray ul
      then setProp (VObj l6) (js ''unlocked'') (VArr [] []) else Some (VObj l6)) = Some (VObj l7)"
    by blast
  obtain ct where ct: "getProp (VObj l7) (js ''contentTokens'') = Some ct"
    using getProp_VObj by blast
  have "\<exists>l8. (if \<not> isArray ct
      then setProp (VObj l7) (js ''contentTokens'') (VArr [] []) else Some (VObj l7)) = Some (VObj l8)"
    by simp
  then obtain l8 where 8: "(if \<not> isArray ct
      then setProp (VObj l7) (js ''contentTokens'') (VArr [] []) else Some (VObj l7)) = Some (VObj l8)"
    by blast
  obtain l9 where 9: "setProp (VObj l8) (js ''disabled'') (VBool False) = Some (VObj l9)"
    using setProp_VObj by blast
  obtain l10 where 10: "setProp (VObj l9) (js ''accessUntilMs'') VNull = Some (VObj l10)"
    using setProp_VObj by blast
  obtain ca where ca: "getProp (VObj l10) (js ''createdAt'') = Some ca"
    using getProp_VObj by blast
  have "\<exists>l11. (if \<not> truthy ca
      then setProp (VObj l10) (js ''createdAt'') (VStr now) else Some (VObj l10)) = Some (VObj l11)"
    by simp
  then obtain l11 where 11: "(if \<not> truthy ca
      then setProp (VObj l10) (js ''createdAt'') (VStr now) else Some (VObj l10)) = Some (VObj l11)"
    by blast
  have "updateUser (VObj l) un em s h now = Some (VObj l11)"
    by (simp only: updateUser_def 1 2 3 4 5 q 6 ul 7 ct 8 9 10 ca 11 Option.bind.bind_lunit)
  then show ?thesis by blast
qed

lemma hexDigit_inject:
  assumes "m < 16" "n < 16" "hexDigit m = hexDigit n"
  shows "m = n"
proof -
  have "distinct (js ''0123456789abcdef'')" by (simp add: js_def)
  moreover have "length (js ''0123456789abcdef'') = 16" by (simp add: js_def)
  ultimately show ?thesis
    using assms by (simp add: hexDigit_def nth_eq_iff_index_eq)
qed

lemma hexByte_inject:
  assumes "hexByte a = hexByte b"
  shows "a = b"
proof -
  have "unat a < 2 ^ LENGTH(8)" by (rule unsigned_less)
  moreover have "unat b < 2 ^ LENGTH(8)" by (rule unsigned_less)
  ultimately have lt: "unat a div 16 < 16" "unat b div 16 < 16" by simp_all
  from assms have hi: "hexDigit (unat a div 16) = hexDigit (unat b div 16)"
    and lo: "hexDigit (unat a mod 16) = hexDigit (unat b mod 16)"
    by (simp_all add: hexByte_def)
  have "unat a div 16 = unat b div 16"
    using lt hi by (rule hexDigit_inject)
  moreover have "unat a mod 16 = unat b mod 16"
    using _ _ lo by (rule hexDigit_inject) simp_all
  ultimately have "unat a = unat b" by (metis div_mult_mod_eq)
  then show ?thesis by (rule word_unat_eq_iff [THEN iffD2])
qed

lemma toHex_inject: "toHex a = toHex b \<Longrightarrow> a = b"
proof (induction a arbitrary: b)
  case Nil
  then show ?case by (cases b) (simp_all add: toHex_def hexByte_def)
next
  case (Cons x a)
  show ?case
  proof (cases b)
    case Nil
    with Cons.prems show ?thesis by (simp add: toHex_def hexByte_def)
  next
    case (Cons y b')
    with Cons.prems have "hexByte x @ toHex a = hexByte y @ toHex b'"
      by (simp add: toHex_def)
    moreover have "length (hexByte x) = length (hexByte y)" by (simp add: hexByte_def)
    ultimately have "hexByte x = hexByte y" "toHex a = toHex b'" by simp_all
    then show ?thesis using Cons.IH [of b'] hexByte_inject \<open>b = y # b'\<close> by auto
  qed
qed

lemma load_single:
  "load (Text (Json (JObj [(js ''users'', JArr [r])]))) = VObj [(js ''users'', VArr [fromJSON r] [])]"
  by (simp add: load_shape collectionShape_def)

lemma toJSON_VObj: "\<exists>r. toJSON (VObj l) = Some r"
  by simp

lemma run_on_single:
  assumes before: "file_before w = Text (Json (JObj [(js ''users'', JArr [r])]))"
    and r: "hasUsername un (fromJSON r)" "fromJSON r = VObj l"
    and un: "cleanUsername (ADMIN_USER env) = Some un"
    and pw: "normalizePassword (ADMIN_PASS env) = Some pw"
    and em: "ADMIN_EMAIL env = [] \<or> normalizeEmail (ADMIN_EMAIL env) \<noteq> None"
    and derived: "crypto_scrypt w pw (crypto_randomBytes w 16) 64 = Some derived"
    and ok: "writeFile_error w = None" "rename_error w = None"
  shows "\<exists>u r'. updateUser (fromJSON r) un
        (if ADMIN_EMAIL env \<noteq> [] then normalizeEmail (ADMIN_EMAIL env) else None)
        (toHex (crypto_randomBytes w 16)) (toHex derived) (date_now w) = Some u \<and>
      toJSON u = Some r' \<and>
      script env w = \<lparr>outcome = Ready (VObj [(js ''users'', VArr [u] [])]),
        file_after = Text (Json (JObj [(js ''users'', JArr [r'])])),
        calls = [Mkdir, ReadFile, WriteFile (Json (JObj [(js ''users'', JArr [r'])])), Rename]\<rparr>"
proof -
  let ?em = "if ADMIN_EMAIL env \<noteq> [] then normalizeEmail (ADMIN_EMAIL env) else None"
  obtain l' where u: "updateUser (fromJSON r) un ?em
        (toHex (crypto_randomBytes w 16)) (toHex derived) (date_now w) = Some (VObj l')"
    unfolding r(2) using updateUser_VObj [of l un ?em] by blast
  obtain r' where r': "toJSON (VObj l') = Some r'" using toJSON_VObj by blast
  have 1: "getProp (load (file_before w)) (js ''users'') = Some (VArr [fromJSON r] [])"
    by (simp add: before load_single)
  have 2: "find_js (matchesUser (numberToString w) un) [fromJSON r] = Some (Some 0)"
    using hasUsername_matches [OF r(1)] by simp
  have 3: "upsert (load (file_before w)) (Some 0) (crypto_randomUUID w) un ?em
       (toHex (crypto_randomBytes w 16)) (toHex derived) (date_now w) =
      Some (VObj [(js ''users'', VArr [VObj l'] [])])"
    using u by (simp add: upsert_def before load_single r(2) withUsers_def)
  have "script env w = \<lparr>outcome = Ready (VObj [(js ''users'', VArr [VObj l'] [])]),
      file_after = Text (JSON_stringify (VObj [(js ''users'', VArr [VObj l'] [])])),
      calls = [Mkdir, ReadFile,
        WriteFile (JSON_stringify (VObj [(js ''users'', VArr [VObj l'] [])])), Rename]\<rparr>"
    unfolding script_valid [OF un pw em] by (rule store_Ready [OF 1 2 derived 3 ok])
  then show ?thesis
    using u r' by (simp add: JSON_stringify_single)
qed




lemma script_missing:
  "script env_missing w = usage w (js ''Missing ADMIN_USER.'')"
  by (simp add: script_def ADMIN_USER_def env_missing_def orElse_def)

lemma script_disk_full:
  "script env_example (calm\<lparr>writeFile_error := Some ENOSPC\<rparr>) =
     rejected (calm\<lparr>writeFile_error := Some ENOSPC\<rparr>) (IOError ENOSPC)
       [Mkdir, ReadFile, WriteFile (JSON_stringify exampleDb)]"
proof -
  have "load (file_before (calm\<lparr>writeFile_error := Some ENOSPC\<rparr>)) = emptyDb"
    by (simp add: calm_def load_simps)
  then show ?thesis
    unfolding script_example_store
    by (simp add: store_empty persist_def rejected_def exampleDb_def calm_def)
qed

section \<open>One admin record per username\<close>




section \<open>Errors while reading the backing file\<close>




section \<open>Running the script twice\<close>

text \<open>
  Claim C3. Two runs with the same validated username and password, the first on a
  store that loads as the empty collection and the second on the file the first one
  wrote, neither failing in the key derivation or in its writes: both succeed, and after
  each the collection holds one record, with that username. The second run stores the
  hex of its own salt and of its own derived key, so when the two salts drawn differ
  the two runs store different pairs of \<^verbatim>\<open>salt\<close> and \<^verbatim>\<open>passHash\<close>. The \<^verbatim>\<open>id\<close> of the record
  stays, and so does \<^verbatim>\<open>createdAt\<close> when the first timestamp is not the empty string.
\<close>

theorem second_run_rotates_credential:
  assumes empty: "load (file_before w1) = emptyDb"
    and chain: "file_before w2 = file_after (script env w1)"
    and un: "cleanUsername (ADMIN_USER env) = Some un"
    and pw: "normalizePassword (ADMIN_PASS env) = Some pw"
    and em: "ADMIN_EMAIL env = [] \<or> normalizeEmail (ADMIN_EMAIL env) \<noteq> None"
    and d1: "crypto_scrypt w1 pw (crypto_randomBytes w1 16) 64 = Some derived1"
    and d2: "crypto_scrypt w2 pw (crypto_randomBytes w2 16) 64 = Some derived2"
    and ok1: "writeFile_error w1 = None" "rename_error w1 = None"
    and ok2: "writeFile_error w2 = None" "rename_error w2 = None"
  shows "\<exists>rec1 rec2 r2.
     outcome (script env w1) = Ready (VObj [(js ''users'', VArr [rec1] [])]) \<and>
     outcome (script env w2) = Ready (VObj [(js ''users'', VArr [rec2] [])]) \<and>
     file_after (script env w2) = Text (Json (JObj [(js ''users'', JArr [r2])])) \<and>
     toJSON rec2 = Some r2 \<and>
     getProp rec1 (js ''username'') = Some (VStr un) \<and>
     getProp rec2 (js ''username'') = Some (VStr un) \<and>
     getProp rec1 (js ''salt'') = Some (VStr (toHex (crypto_randomBytes w1 16))) \<and>
     getProp rec1 (js ''passHash'') = Some (VStr (toHex derived1)) \<and>
     getProp rec2 (js ''salt'') = Some (VStr (toHex (crypto_randomBytes w2 16))) \<and>
     getProp rec2 (js ''passHash'') = Some (VStr (toHex derived2)) \<and>
     (crypto_randomBytes w2 16 \<noteq> crypto_randomBytes w1 16 \<longrightarrow>
        (getProp rec2 (js ''salt''), getProp rec2 (js ''passHash'')) \<noteq>
        (getProp rec1 (js ''salt''), getProp rec1 (js ''passHash''))) \<and>
     getProp rec2 (js ''id'') = getProp rec1 (js ''id'') \<and>
     (date_now w1 \<noteq> [] \<longrightarrow> getProp rec2 (js ''createdAt'') = getProp rec1 (js ''createdAt''))"
proof -
  let ?em = "if ADMIN_EMAIL env \<noteq> [] then normalizeEmail (ADMIN_EMAIL env) else None"
  define rec1 where "rec1 = newUser (crypto_randomUUID w1) un ?em
       (toHex (crypto_randomBytes w1 16)) (toHex derived1) (date_now w1)"
  obtain r1 where r1: "toJSON rec1 = Some r1"
    unfolding rec1_def by (simp add: toJSON_newUser)
  have run1: "script env w1 = \<lparr>outcome = Ready (VObj [(js ''users'', VArr [rec1] [])]),
      file_after = Text (Json (JObj [(js ''users'', JArr [r1])])),
      calls = [Mkdir, ReadFile, WriteFile (Json (JObj [(js ''users'', JArr [r1])])), Rename]\<rparr>"
    using run_on_empty [OF empty un pw em d1 ok1] r1
    by (simp add: Let_def rec1_def [symmetric] JSON_stringify_single)
  have file2: "file_before w2 = Text (Json (JObj [(js ''users'', JArr [r1])]))"
    by (simp add: chain run1)
  note rb = createdAt_read_back [OF r1 [unfolded rec1_def]]
  from rb(6) obtain l where l: "fromJSON r1 = VObj l" by blast
  have has: "hasUsername un (fromJSON r1)"
    using rb(2) by (simp add: hasUsername_def)
  from run_on_single [OF file2 has l un pw em d2 ok2] obtain rec2 r2 where
    up: "updateUser (fromJSON r1) un ?em (toHex (crypto_randomBytes w2 16)) (toHex derived2)
        (date_now w2) = Some rec2"
    and r2: "toJSON rec2 = Some r2"
    and run2: "script env w2 = \<lparr>outcome = Ready (VObj [(js ''users'', VArr [rec2] [])]),
        file_after = Text (Json (JObj [(js ''users'', JArr [r2])])),
        calls = [Mkdir, ReadFile, WriteFile (Json (JObj [(js ''users'', JArr [r2])])), Rename]\<rparr>"
    by blast
  note g = updateUser_getProp [OF up]
  have s1: "getProp rec1 (js ''salt'') = Some (VStr (toHex (crypto_randomBytes w1 16)))"
    and h1: "getProp rec1 (js ''passHash'') = Some (VStr (toHex derived1))"
    and u1: "getProp rec1 (js ''username'') = Some (VStr un)"
    and i1: "getProp rec1 (js ''id'') = Some (VStr (crypto_randomUUID w1))"
    and c1: "getProp rec1 (js ''createdAt'') = Some (VStr (date_now w1))"
    by (simp_all add: rec1_def newUser_props)
  have s2: "getProp rec2 (js ''salt'') = Some (VStr (toHex (crypto_randomBytes w2 16)))"
    and h2: "getProp rec2 (js ''passHash'') = Some (VStr (toHex derived2))"
    and u2: "getProp rec2 (js ''username'') = Some (VStr un)"
    by (simp_all add: g)
  have i2: "getProp rec2 (js ''id'') = getProp rec1 (js ''id'')"
    by (simp add: g i1 rb(3))
  have c2: "getProp rec2 (js ''createdAt'') = getProp rec1 (js ''createdAt'')" if "date_now w1 \<noteq> []"
    using that by (simp add: g c1 rb(1))
  have fresh: "(getProp rec2 (js ''salt''), getProp rec2 (js ''passHash'')) \<noteq>
        (getProp rec1 (js ''salt''), getProp rec1 (js ''passHash''))"
    if "crypto_randomBytes w2 16 \<noteq> crypto_randomBytes w1 16"
    using that toHex_inject [of "crypto_randomBytes w2 16" "crypto_randomBytes w1 16"]
    by (auto simp add: s1 s2)
  have o1: "outcome (script env w1) = Ready (VObj [(js ''users'', VArr [rec1] [])])"
    by (simp add: run1)
  have o2: "outcome (script env w2) = Ready (VObj [(js ''users'', VArr [rec2] [])])"
    and f2: "file_after (script env w2) = Text (Json (JObj [(js ''users'', JArr [r2])]))"
    by (simp_all add: run2)
  show ?thesis
    using o1 o2 f2 r2 u1 u2 s1 h1 s2 h2 fresh i2 c2 by blast
qed

text \<open>
  The example environment in two worlds that draw different salts.
\<close>

theorem second_run_rotates_credential_witness:
  "load (file_before calm) = emptyDb \<and>
   file_before calm2 = file_after (script env_example calm) \<and>
   crypto_randomBytes calm2 16 \<noteq> crypto_randomBytes calm 16 \<and>
   date_now calm \<noteq> [] \<and>
   (\<exists>rec1 rec2 r2.
     outcome (script env_example calm) = Ready (VObj [(js ''users'', VArr [rec1] [])]) \<and>
     outcome (script env_example calm2) = Ready (VObj [(js ''users'', VArr [rec2] [])]) \<and>
     file_after (script env_example calm2) = Text (Json (JObj [(js ''users'', JArr [r2])])) \<and>
     toJSON rec2 = Some r2 \<and>
     getProp rec1 (js ''username'') = Some (VStr (js ''root-ops'')) \<and>
     getProp rec2 (js ''username'') = Some (VStr (js ''root-ops'')) \<and>
     getProp rec1 (js ''salt'') = Some (VStr (toHex (replicate 16 0xAB))) \<and>
     getProp rec1 (js ''passHash'') = Some (VStr (toHex (replicate 64 0x5C))) \<and>
     getProp rec2 (js ''salt'') = Some (VStr (toHex (replicate 16 0xCD))) \<and>
     getProp rec2 (js ''passHash'') = Some (VStr (toHex (replicate 64 0x7E))) \<and>
     (getProp rec2 (js ''salt''), getProp rec2 (js ''passHash'')) \<noteq>
        (getProp rec1 (js ''salt''), getProp rec1 (js ''passHash'')) \<and>
     getProp rec2 (js ''id'') = getProp rec1 (js ''id'') \<and>
     getProp rec2 (js ''createdAt'') = getProp rec1 (js ''createdAt''))"
proof -
  have empty: "load (file_before calm) = emptyDb" by (simp add: calm_def load_simps)
  have chain: "file_before calm2 = file_after (script env_example calm)"
    by (simp add: script_example calm2_def)
  have un: "cleanUsername (ADMIN_USER env_example) = Some (js ''root-ops'')"
    by (simp add: env_example_vars cleanUsername_rootops)
  have pw: "normalizePassword (ADMIN_PASS env_example) = Some (js ''correcthorse1'')"
    by (simp add: env_example_vars normalizePassword_example)
  have em: "ADMIN_EMAIL env_example = [] \<or> normalizeEmail (ADMIN_EMAIL env_example) \<noteq> None"
    by (simp add: env_example_vars)
  have d1: "crypto_scrypt calm (js ''correcthorse1'') (crypto_randomBytes calm 16) 64 =
      Some (replicate 64 0x5C)"
    by (simp add: calm_def)
  have d2: "crypto_scrypt calm2 (js ''correcthorse1'') (crypto_randomBytes calm2 16) 64 =
      Some (replicate 64 0x7E)"
    by (simp add: calm2_def)
  have ok1: "writeFile_error calm = None" "rename_error calm = None" by (simp_all add: calm_def)
  have ok2: "writeFile_error calm2 = None" "rename_error calm2 = None" by (simp_all add: calm2_def)
  have b1: "crypto_randomBytes calm 16 = replicate 16 0xAB" by (simp add: calm_def)
  have b2: "crypto_randomBytes calm2 16 = replicate 16 0xCD" by (simp add: calm2_def)
  have fresh: "crypto_randomBytes calm2 16 \<noteq> crypto_randomBytes calm 16"
    by (simp add: b1 b2)
  have now: "date_now calm \<noteq> []" by (simp add: calm_def)
  from second_run_rotates_credential [OF empty chain un pw em d1 d2 ok1 ok2] fresh now
  have "\<exists>rec1 rec2 r2.
     outcome (script env_example calm) = Ready (VObj [(js ''users'', VArr [rec1] [])]) \<and>
     outcome (script env_example calm2) = Ready (VObj [(js ''users'', VArr [rec2] [])]) \<and>
     file_after (script env_example calm2) = Text (Json (JObj [(js ''users'', JArr [r2])])) \<and>
     toJSON rec2 = Some r2 \<and>
     getProp rec1 (js ''username'') = Some (VStr (js ''root-ops'')) \<and>
     getProp rec2 (js ''username'') = Some (VStr (js ''root-ops'')) \<and>
     getProp rec1 (js ''salt'') = Some (VStr (toHex (crypto_randomBytes calm 16))) \<and>
     getProp rec1 (js ''passHash'') = Some (VStr (toHex (replicate 64 0x5C))) \<and>
     getProp rec2 (js ''salt'') = Some (VStr (toHex (crypto_randomBytes calm2 16))) \<and>
     getProp rec2 (js ''passHash'') = Some (VStr (toHex (replicate 64 0x7E))) \<and>
     (getProp rec2 (js ''salt''), getProp rec2 (js ''passHash'')) \<noteq>
        (getProp rec1 (js ''salt''), getProp rec1 (js ''passHash'')) \<and>
     getProp rec2 (js ''id'') = getProp rec1 (js ''id'') \<and>
     getProp rec2 (js ''createdAt'') = getProp rec1 (js ''createdAt'')"
    by blast
  then show ?thesis
    unfolding b1 b2 using empty chain fresh now by (simp only: b1 b2 simp_thms)
qed

section \<open>The creation timestamp\<close>

text \<open>
  Claim C4, as stated, fails. A record matched by username whose \<^verbatim>\<open>createdAt\<close> is
  there with the value 0 has it overwritten by the time of the run: the script tests
  \<^verbatim>\<open>!u.createdAt\<close>, and 0 is falsy.
\<close>

theorem falsy_createdAt_counterexample:
  "field stale_record (js ''createdAt'') = Some (JNum 0) \<and>
   field stale_store (js ''users'') = Some (JArr [stale_record]) \<and>
   outcome (script env_example (calm\<lparr>file_before := Text (Json stale_store)\<rparr>)) =
     Ready (VObj [(js ''users'', VArr [stale_updated] [])]) \<and>
   getProp stale_updated (js ''createdAt'') = Some (VStr (js ''2026-11-02T10:00:00.000Z''))"
  by (simp add: script_stale) (simp add: field_def stale_record_def stale_store_def stale_updated_def)

text \<open>
  Claim C4, amended. The update leaves \<^verbatim>\<open>createdAt\<close> as it was when its value
  is truthy, and writes the time of the run when it is missing or falsy (\<^verbatim>\<open>undefined\<close>,
  \<^verbatim>\<open>null\<close>, \<^verbatim>\<open>false\<close>, 0 or the empty string). The value set at first creation is a
  timestamp, a string that is not empty, so an update of the record read back from the
  file leaves it unchanged.
\<close>

theorem createdAt_kept_when_truthy:
  "(updateUser u un em s h now = Some u' \<longrightarrow>
      (\<exists>c. getProp u (js ''createdAt'') = Some c \<and>
           getProp u' (js ''createdAt'') = Some (if truthy c then c else VStr now))) \<and>
   (now0 \<noteq> [] \<and> toJSON (newUser uuid un0 em0 s0 h0 now0) = Some r \<and>
    updateUser (fromJSON r) un em s h now = Some u' \<longrightarrow>
      getProp u' (js ''createdAt'') = Some (VStr now0))"
proof -
  have A: "\<exists>c. getProp u (js ''createdAt'') = Some c \<and>
      getProp u' (js ''createdAt'') = Some (if truthy c then c else VStr now)"
    if "updateUser u un em s h now = Some u'" for u u'
    using updateUser_getProp [OF that, of "js ''createdAt''"]
      updateUser_getProp_Some [OF that, of "js ''createdAt''"]
    by auto
  have B: "getProp u' (js ''createdAt'') = Some (VStr now0)"
    if "now0 \<noteq> []" "toJSON (newUser uuid un0 em0 s0 h0 now0) = Some r"
      "updateUser (fromJSON r) un em s h now = Some u'"
    using A [OF that(3)] createdAt_read_back(1) [OF that(2)] that(1) by auto
  from A [of u u'] B show ?thesis by blast
qed

text \<open>
  A record with \<^verbatim>\<open>createdAt\<close> 0 gets the time of the run, a record with a
  timestamp keeps it.
\<close>

theorem createdAt_kept_when_truthy_witness:
  "updateUser (fromJSON stale_record) (js ''root-ops'') None (toHex (replicate 16 0xAB))
     (toHex (replicate 64 0x5C)) (js ''2026-11-02T10:00:00.000Z'') = Some stale_updated \<and>
   getProp (fromJSON stale_record) (js ''createdAt'') = Some (VNum 0) \<and>
   getProp stale_updated (js ''createdAt'') = Some (VStr (js ''2026-11-02T10:00:00.000Z'')) \<and>
   updateUser (fromJSON dated_record) (js ''root-ops'') None (toHex (replicate 16 0xAB))
     (toHex (replicate 64 0x5C)) (js ''2026-11-02T10:00:00.000Z'') = Some dated_updated \<and>
   getProp (fromJSON dated_record) (js ''createdAt'') =
     Some (VStr (js ''2020-05-05T05:05:05.000Z'')) \<and>
   getProp dated_updated (js ''createdAt'') = Some (VStr (js ''2020-05-05T05:05:05.000Z'')) \<and>
   (\<exists>r u'. toJSON (newUser (js ''6f1c2a9e-0000-4000-8000-000000000001'') (js ''root-ops'') None
         (toHex (replicate 16 0xAB)) (toHex (replicate 64 0x5C))
         (js ''2026-11-02T10:00:00.000Z'')) = Some r \<and>
      updateUser (fromJSON r) (js ''root-ops'') None (toHex (replicate 16 0xCD))
         (toHex (replicate 64 0x7E)) (js ''2026-11-03T08:30:00.000Z'') = Some u' \<and>
      getProp u' (js ''createdAt'') = Some (VStr (js ''2026-11-02T10:00:00.000Z'')))"
proof -
  have 1: "getProp (fromJSON stale_record) (js ''createdAt'') = Some (VNum 0)"
    by (simp add: stale_record_def)
  have 2: "getProp stale_updated (js ''createdAt'') = Some (VStr (js ''2026-11-02T10:00:00.000Z''))"
    using createdAt_kept_when_truthy [of "fromJSON stale_record" "js ''root-ops''" None
        "toHex (replicate 16 0xAB)" "toHex (replicate 64 0x5C)" "js ''2026-11-02T10:00:00.000Z''"
        stale_updated, THEN conjunct1, rule_format, OF updateUser_stale] 1
    by simp
  have 3: "getProp (fromJSON dated_record) (js ''createdAt'') =
      Some (VStr (js ''2020-05-05T05:05:05.000Z''))"
    by (simp add: dated_record_def)
  have 4: "getProp dated_updated (js ''createdAt'') = Some (VStr (js ''2020-05-05T05:05:05.000Z''))"
    using createdAt_kept_when_truthy [of "fromJSON dated_record" "js ''root-ops''" None
        "toHex (replicate 16 0xAB)" "toHex (replicate 64 0x5C)" "js ''2026-11-02T10:00:00.000Z''"
        dated_updated, THEN conjunct1, rule_format, OF updateUser_dated] 3
    by simp
  have 5: "\<exists>r u'. toJSON (newUser (js ''6f1c2a9e-0000-4000-8000-000000000001'') (js ''root-ops'') None
         (toHex (replicate 16 0xAB)) (toHex (replicate 64 0x5C))
         (js ''2026-11-02T10:00:00.000Z'')) = Some r \<and>
      updateUser (fromJSON r) (js ''root-ops'') None (toHex (replicate 16 0xCD))
         (toHex (replicate 64 0x7E)) (js ''2026-11-03T08:30:00.000Z'') = Some u' \<and>
      getProp u' (js ''createdAt'') = Some (VStr (js ''2026-11-02T10:00:00.000Z''))"
  proof -
    obtain r where r: "toJSON (newUser (js ''6f1c2a9e-0000-4000-8000-000000000001'')
        (js ''root-ops'') None (toHex (replicate 16 0xAB)) (toHex (replicate 64 0x5C))
        (js ''2026-11-02T10:00:00.000Z'')) = Some r"
      by (simp add: toJSON_newUser)
    from createdAt_read_back(6) [OF r] obtain l where l: "fromJSON r = VObj l" by blast
    obtain u' where u': "updateUser (fromJSON r) (js ''root-ops'') None (toHex (replicate 16 0xCD))
        (toHex (replicate 64 0x7E)) (js ''2026-11-03T08:30:00.000Z'') = Some u'"
      unfolding l using updateUser_VObj by blast
    have now0: "js ''2026-11-02T10:00:00.000Z'' \<noteq> []" by simp
    from createdAt_kept_when_truthy [THEN conjunct2, rule_format, OF conjI [OF now0 conjI [OF r u']]]
    have "getProp u' (js ''createdAt'') = Some (VStr (js ''2026-11-02T10:00:00.000Z''))" .
    with r u' show ?thesis by blast
  qed
  from updateUser_stale updateUser_dated 1 2 3 4 5 show ?thesis by (intro conjI)
qed

section \<open>A corrupt backing file\<close>

text \<open>
  Claim C5. When the text of the backing file is not JSON, or is JSON that is not an
  object with an array-valued \<^verbatim>\<open>users\<close> field, and the inputs are valid and neither the
  key derivation nor the two writes fail, the run succeeds with exit code 0; the
  collection in memory and the collection written to the file both hold the new admin
  record and nothing else.
\<close>

theorem corrupt_store_recovered:
  assumes bad: "file_before w = Text NotJSON \<or>
      (\<exists>j. file_before w = Text (Json j) \<and> \<not> collectionShape j)"
    and un: "cleanUsername (ADMIN_USER env) = Some un"
    and pw: "normalizePassword (ADMIN_PASS env) = Some pw"
    and em: "ADMIN_EMAIL env = [] \<or> normalizeEmail (ADMIN_EMAIL env) \<noteq> None"
    and derived: "crypto_scrypt w pw (crypto_randomBytes w 16) 64 = Some derived"
    and ok: "writeFile_error w = None" "rename_error w = None"
  shows "\<exists>rec r.
     rec = newUser (crypto_randomUUID w) un
       (if ADMIN_EMAIL env \<noteq> [] then normalizeEmail (ADMIN_EMAIL env) else None)
       (toHex (crypto_randomBytes w 16)) (toHex derived) (date_now w) \<and>
     toJSON rec = Some r \<and>
     outcome (script env w) = Ready (VObj [(js ''users'', VArr [rec] [])]) \<and>
     exitCode (outcome (script env w)) = 0 \<and>
     file_after (script env w) = Text (Json (JObj [(js ''users'', JArr [r])]))"
proof -
  from bad have empty: "load (file_before w) = emptyDb"
    by (auto simp add: load_shape)
  define rec where "rec = newUser (crypto_randomUUID w) un
       (if ADMIN_EMAIL env \<noteq> [] then normalizeEmail (ADMIN_EMAIL env) else None)
       (toHex (crypto_randomBytes w 16)) (toHex derived) (date_now w)"
  obtain r where r: "toJSON rec = Some r"
    unfolding rec_def by (simp add: toJSON_newUser)
  have "script env w = \<lparr>outcome = Ready (VObj [(js ''users'', VArr [rec] [])]),
      file_after = Text (JSON_stringify (VObj [(js ''users'', VArr [rec] [])])),
      calls = [Mkdir, ReadFile, WriteFile (JSON_stringify (VObj [(js ''users'', VArr [rec] [])])),
        Rename]\<rparr>"
    using run_on_empty [OF empty un pw em derived ok] by (simp add: Let_def rec_def)
  then show ?thesis
    using r by (simp add: JSON_stringify_single rec_def)
qed

text \<open>
  The run of the example environment on a file that is not JSON.
\<close>

theorem corrupt_store_recovered_witness:
  "(\<exists>rec r.
     rec = newUser (js ''6f1c2a9e-0000-4000-8000-000000000001'') (js ''root-ops'') None
       (toHex (replicate 16 0xAB)) (toHex (replicate 64 0x5C)) (js ''2026-11-02T10:00:00.000Z'') \<and>
     toJSON rec = Some r \<and>
     outcome (script env_example (calm\<lparr>file_before := Text NotJSON\<rparr>)) =
       Ready (VObj [(js ''users'', VArr [rec] [])]) \<and>
     exitCode (outcome (script env_example (calm\<lparr>file_before := Text NotJSON\<rparr>))) = 0 \<and>
     file_after (script env_example (calm\<lparr>file_before := Text NotJSON\<rparr>)) =
       Text (Json (JObj [(js ''users'', JArr [r])]))) \<and>
   \<not> collectionShape (JObj [(js ''users'', JStr (js ''nobody''))]) \<and>
   (\<exists>rec r.
     rec = newUser (js ''6f1c2a9e-0000-4000-8000-000000000001'') (js ''root-ops'') None
       (toHex (replicate 16 0xAB)) (toHex (replicate 64 0x5C)) (js ''2026-11-02T10:00:00.000Z'') \<and>
     toJSON rec = Some r \<and>
     outcome (script env_example
       (calm\<lparr>file_before := Text (Json (JObj [(js ''users'', JStr (js ''nobody''))]))\<rparr>)) =
       Ready (VObj [(js ''users'', VArr [rec] [])]) \<and>
     exitCode (outcome (script env_example
       (calm\<lparr>file_before := Text (Json (JObj [(js ''users'', JStr (js ''nobody''))]))\<rparr>))) = 0 \<and>
     file_after (script env_example
       (calm\<lparr>file_before := Text (Json (JObj [(js ''users'', JStr (js ''nobody''))]))\<rparr>)) =
       Text (Json (JObj [(js ''users'', JArr [r])])))"
proof -
  let ?w = "calm\<lparr>file_before := Text NotJSON\<rparr>"
  let ?j = "JObj [(js ''users'', JStr (js ''nobody''))]"
  let ?v = "calm\<lparr>file_before := Text (Json ?j)\<rparr>"
  have shape: "\<not> collectionShape ?j" by (simp add: collectionShape_def)
  have bad: "file_before ?w = Text NotJSON \<or>
      (\<exists>j. file_before ?w = Text (Json j) \<and> \<not> collectionShape j)"
    by simp
  have bad': "file_before ?v = Text NotJSON \<or>
      (\<exists>j. file_before ?v = Text (Json j) \<and> \<not> collectionShape j)"
    using shape by simp
  have un: "cleanUsername (ADMIN_USER env_example) = Some (js ''root-ops'')"
    by (simp add: env_example_vars cleanUsername_rootops)
  have pw: "normalizePassword (ADMIN_PASS env_example) = Some (js ''correcthorse1'')"
    by (simp add: env_example_vars normalizePassword_example)
  have em: "ADMIN_EMAIL env_example = [] \<or> normalizeEmail (ADMIN_EMAIL env_example) \<noteq> None"
    by (simp add: env_example_vars)
  have derived: "crypto_scrypt ?w (js ''correcthorse1'') (crypto_randomBytes ?w 16) 64 =
      Some (replicate 64 0x5C)"
    "crypto_scrypt ?v (js ''correcthorse1'') (crypto_randomBytes ?v 16) 64 =
      Some (replicate 64 0x5C)"
    by (simp_all add: calm_def)
  have ok: "writeFile_error ?w = None" "rename_error ?w = None"
    "writeFile_error ?v = None" "rename_error ?v = None"
    by (simp_all add: calm_def)
  have vals: "crypto_randomUUID ?w = js ''6f1c2a9e-0000-4000-8000-000000000001''"
    "crypto_randomUUID ?v = js ''6f1c2a9e-0000-4000-8000-000000000001''"
    "crypto_randomBytes ?w 16 = replicate 16 0xAB" "crypto_randomBytes ?v 16 = replicate 16 0xAB"
    "date_now ?w = js ''2026-11-02T10:00:00.000Z''" "date_now ?v = js ''2026-11-02T10:00:00.000Z''"
    by (simp_all add: calm_def)
  from corrupt_store_recovered [OF bad un pw em derived(1) ok(1,2)]
  have 1: "\<exists>rec r.
     rec = newUser (js ''6f1c2a9e-0000-4000-8000-000000000001'') (js ''root-ops'') None
       (toHex (replicate 16 0xAB)) (toHex (replicate 64 0x5C)) (js ''2026-11-02T10:00:00.000Z'') \<and>
     toJSON rec = Some r \<and>
     outcome (script env_example ?w) = Ready (VObj [(js ''users'', VArr [rec] [])]) \<and>
     exitCode (outcome (script env_example ?w)) = 0 \<and>
     file_after (script env_example ?w) = Text (Json (JObj [(js ''users'', JArr [r])]))"
    unfolding vals by (simp add: env_example_vars)
  from corrupt_store_recovered [OF bad' un pw em derived(2) ok(3,4)]
  have 2: "\<exists>rec r.
     rec = newUser (js ''6f1c2a9e-0000-4000-8000-000000000001'') (js ''root-ops'') None
       (toHex (replicate 16 0xAB)) (toHex (replicate 64 0x5C)) (js ''2026-11-02T10:00:00.000Z'') \<and>
     toJSON rec = Some r \<and>
     outcome (script env_example ?v) = Ready (VObj [(js ''users'', VArr [rec] [])]) \<and>
     exitCode (outcome (script env_example ?v)) = 0 \<and>
     file_after (script env_example ?v) = Text (Json (JObj [(js ''users'', JArr [r])]))"
    unfolding vals by (simp add: env_example_vars)
  from 1 shape 2 show ?thesis by (intro conjI)
qed

section \<open>The record created in an empty store\<close>

text \<open>
  Claim C6. After a successful run against a store that loads as the empty
  collection, the collection holds one record. Its \<^verbatim>\<open>username\<close> is the trimmed input, its
  \<^verbatim>\<open>role\<close> is \<^verbatim>\<open>admin\<close>, \<^verbatim>\<open>disabled\<close> is \<^verbatim>\<open>false\<close>, \<^verbatim>\<open>accessUntilMs\<close> is \<^verbatim>\<open>null\<close>, \<^verbatim>\<open>quota\<close> is
  -1, \<^verbatim>\<open>unlocked\<close> and \<^verbatim>\<open>contentTokens\<close> are empty arrays, \<^verbatim>\<open>salt\<close> is a string of 32 hex
  digits and \<^verbatim>\<open>passHash\<close> a string of 128 hex digits. The lengths rest on what Node
  promises: 16 random bytes and a derived key of 64 bytes (\<open>wf_world\<close>).
\<close>

theorem new_admin_record:
  assumes empty: "load (file_before w) = emptyDb"
    and wf: "wf_world w"
    and ready: "outcome (script env w) = Ready db"
  shows "\<exists>rec s h. usersOf db = [rec] \<and>
     getProp rec (js ''username'') = Some (VStr (ADMIN_USER env)) \<and>
     getProp rec (js ''role'') = Some (VStr (js ''admin'')) \<and>
     getProp rec (js ''disabled'') = Some (VBool False) \<and>
     getProp rec (js ''accessUntilMs'') = Some VNull \<and>
     getProp rec (js ''quota'') = Some (VNum (- 1)) \<and>
     getProp rec (js ''unlocked'') = Some (VArr [] []) \<and>
     getProp rec (js ''contentTokens'') = Some (VArr [] []) \<and>
     getProp rec (js ''salt'') = Some (VStr s) \<and> length s = 32 \<and> isHex s \<and>
     getProp rec (js ''passHash'') = Some (VStr h) \<and> length h = 128 \<and> isHex h"
proof -
  from ready obtain un pw em xs ps found derived where
    un: "cleanUsername (ADMIN_USER env) = Some un"
    and users: "getProp (load (file_before w)) (js ''users'') = Some (VArr xs ps)"
    and found: "find_js (matchesUser (numberToString w) un) xs = Some found"
    and derived: "crypto_scrypt w pw (crypto_randomBytes w 16) 64 = Some derived"
    and up: "upsert (load (file_before w)) found (crypto_randomUUID w) un em
       (toHex (crypto_randomBytes w 16)) (toHex derived) (date_now w) = Some db"
    by (rule script_ReadyD)
  define rec where "rec = newUser (crypto_randomUUID w) un em
       (toHex (crypto_randomBytes w 16)) (toHex derived) (date_now w)"
  from users have xs: "xs = []" "ps = []" by (simp_all add: empty emptyDb_def)
  with found have "found = None" by simp
  with up have "db = VObj [(js ''users'', VArr [rec] [])]"
    by (simp add: upsert_def empty emptyDb_def withUsers_def rec_def)
  then have 1: "usersOf db = [rec]" by (simp add: usersOf_def)
  have 2: "un = ADMIN_USER env" using un by (rule cleanUsername_ADMIN_USER)
  have "length (crypto_randomBytes w 16) = 16" using wf by (simp add: wf_world_def)
  then have 3: "length (toHex (crypto_randomBytes w 16)) = 32" by (simp add: length_toHex)
  have "length derived = 64" using wf derived unfolding wf_world_def by blast
  then have 4: "length (toHex derived) = 128" by (simp add: length_toHex)
  show ?thesis
    using 1 2 3 4 isHex_toHex unfolding rec_def by (simp add: newUser_props)
qed

text \<open>
  The example of the specification: \<^verbatim>\<open>ADMIN_USER="root-ops"\<close>,
  \<^verbatim>\<open>ADMIN_PASS="correcthorse1"\<close> and no backing file.
\<close>

theorem new_admin_record_witness:
  "load (file_before calm) = emptyDb \<and> wf_world calm \<and>
   outcome (script env_example calm) = Ready exampleDb \<and>
   (\<exists>rec s h. usersOf exampleDb = [rec] \<and>
     getProp rec (js ''username'') = Some (VStr (js ''root-ops'')) \<and>
     getProp rec (js ''role'') = Some (VStr (js ''admin'')) \<and>
     getProp rec (js ''disabled'') = Some (VBool False) \<and>
     getProp rec (js ''accessUntilMs'') = Some VNull \<and>
     getProp rec (js ''quota'') = Some (VNum (- 1)) \<and>
     getProp rec (js ''unlocked'') = Some (VArr [] []) \<and>
     getProp rec (js ''contentTokens'') = Some (VArr [] []) \<and>
     getProp rec (js ''salt'') = Some (VStr s) \<and> length s = 32 \<and> isHex s \<and>
     getProp rec (js ''passHash'') = Some (VStr h) \<and> length h = 128 \<and> isHex h)"
proof -
  have 1: "load (file_before calm) = emptyDb" by (simp add: calm_def load_simps)
  have 2: "outcome (script env_example calm) = Ready exampleDb" by (simp add: script_example)
  from new_admin_record [OF 1 wf_world_calm 2] 1 2 wf_world_calm
  show ?thesis by (simp only: env_example_vars simp_thms)
qed

section \<open>Configuration errors\<close>

text \<open>
  Claim C7, as stated, fails. \<^verbatim>\<open>ADMIN_EMAIL\<close> set to one blank is not empty and
  \<open>normalizeEmail\<close> rejects it, yet with a valid username and password the run does not
  abort: the module trims \<^verbatim>\<open>ADMIN_EMAIL\<close> before \<^verbatim>\<open>main\<close> looks at it, the blank becomes
  the empty string, the email counts as not given, and the store is written.
\<close>

theorem blank_email_counterexample:
  "cleanUsername (ADMIN_USER env_blank_email) = Some (js ''root-ops'') \<and>
   normalizePassword (ADMIN_PASS env_blank_email) = Some (js ''correcthorse1'') \<and>
   env_ADMIN_EMAIL env_blank_email = Some (js '' '') \<and> js '' '' \<noteq> [] \<and>
   normalizeEmail (js '' '') = None \<and>
   script env_blank_email calm =
     \<lparr>outcome = Ready exampleDb, file_after = Text (JSON_stringify exampleDb),
      calls = [Mkdir, ReadFile, WriteFile (JSON_stringify exampleDb), Rename]\<rparr> \<and>
   file_after (script env_blank_email calm) \<noteq> file_before calm"
proof -
  have un: "cleanUsername (ADMIN_USER env_blank_email) = Some (js ''root-ops'')"
    by (simp add: env_blank_email_vars cleanUsername_rootops)
  have pw: "normalizePassword (ADMIN_PASS env_blank_email) = Some (js ''correcthorse1'')"
    by (simp add: env_blank_email_vars normalizePassword_example)
  have "script env_blank_email calm = store calm (js ''root-ops'') (js ''correcthorse1'') None"
    using script_valid [OF un pw] by (simp add: env_blank_email_vars)
  moreover have "script env_example calm = store calm (js ''root-ops'') (js ''correcthorse1'') None"
    using script_valid [of env_example "js ''root-ops''" "js ''correcthorse1''"]
    by (simp add: env_example_vars cleanUsername_rootops normalizePassword_example)
  ultimately have "script env_blank_email calm = script env_example calm" by simp
  then show ?thesis
    using un pw by (simp add: script_example normalizeEmail_blank) (simp add: env_blank_email_def calm_def)
qed

text \<open>
  Claim C7, amended. With a valid username and a valid password, an email that is
  not empty once its surrounding whitespace is trimmed and that \<open>normalizeEmail\<close>
  rejects makes the run end in \<^verbatim>\<open>usage("Invalid ADMIN_EMAIL.")\<close> with no file-system call
  made and the backing file as it was. Every run that ends in \<^verbatim>\<open>usage\<close> has made no
  file-system call, and every run that does not succeed leaves the backing file as it
  was.
\<close>

theorem config_errors_before_io:
  "(cleanUsername (ADMIN_USER env) \<noteq> None \<and> normalizePassword (ADMIN_PASS env) \<noteq> None \<and>
    ADMIN_EMAIL env \<noteq> [] \<and> normalizeEmail (ADMIN_EMAIL env) = None \<longrightarrow>
      script env w = \<lparr>outcome = Usage (js ''Invalid ADMIN_EMAIL.''),
        file_after = file_before w, calls = []\<rparr>) \<and>
   (\<forall>msg. outcome (script env w) = Usage msg \<longrightarrow>
      calls (script env w) = [] \<and> file_after (script env w) = file_before w) \<and>
   ((\<forall>db. outcome (script env w) \<noteq> Ready db) \<longrightarrow> file_after (script env w) = file_before w)"
proof -
  have A: "script env w = \<lparr>outcome = Usage (js ''Invalid ADMIN_EMAIL.''),
        file_after = file_before w, calls = []\<rparr>"
    if "cleanUsername (ADMIN_USER env) \<noteq> None \<and> normalizePassword (ADMIN_PASS env) \<noteq> None \<and>
      ADMIN_EMAIL env \<noteq> [] \<and> normalizeEmail (ADMIN_EMAIL env) = None"
  proof -
    from that obtain un pw where un: "cleanUsername (ADMIN_USER env) = Some un"
      and pw: "normalizePassword (ADMIN_PASS env) = Some pw" by auto
    have "ADMIN_USER env \<noteq> []" "un \<noteq> []" using cleanUsername_SomeD [OF un] by auto
    moreover have "ADMIN_PASS env \<noteq> []" "pw \<noteq> []" using normalizePassword_SomeD [OF pw] by auto
    ultimately show ?thesis
      using that by (simp add: script_def main_def un pw usage_def falsy_def)
  qed
  have B: "calls (script env w) = [] \<and> file_after (script env w) = file_before w"
    if "outcome (script env w) = Usage msg" for msg
    using that script_Usage [OF that] script_not_Ready [of env w] by simp
  show ?thesis using A B script_not_Ready by blast
qed

text \<open>
  The example of the specification: the email \<^verbatim>\<open>not-an-email\<close>.
\<close>

theorem config_errors_before_io_witness:
  "cleanUsername (ADMIN_USER env_bad_email) \<noteq> None \<and>
   normalizePassword (ADMIN_PASS env_bad_email) \<noteq> None \<and>
   ADMIN_EMAIL env_bad_email = js ''not-an-email'' \<and>
   normalizeEmail (ADMIN_EMAIL env_bad_email) = None \<and>
   script env_bad_email calm = \<lparr>outcome = Usage (js ''Invalid ADMIN_EMAIL.''),
     file_after = file_before calm, calls = []\<rparr> \<and>
   outcome (script env_missing calm) = Usage (js ''Missing ADMIN_USER.'') \<and>
   calls (script env_missing calm) = [] \<and>
   file_after (script env_missing calm) = file_before calm \<and>
   outcome (script env_example (calm\<lparr>writeFile_error := Some ENOSPC\<rparr>)) =
     Rejected (IOError ENOSPC) \<and>
   file_after (script env_example (calm\<lparr>writeFile_error := Some ENOSPC\<rparr>)) =
     file_before (calm\<lparr>writeFile_error := Some ENOSPC\<rparr>)"
proof -
  let ?full = "calm\<lparr>writeFile_error := Some ENOSPC\<rparr>"
  have 1: "cleanUsername (ADMIN_USER env_bad_email) \<noteq> None \<and>
      normalizePassword (ADMIN_PASS env_bad_email) \<noteq> None \<and>
      ADMIN_EMAIL env_bad_email \<noteq> [] \<and> normalizeEmail (ADMIN_EMAIL env_bad_email) = None"
    by (simp add: env_bad_email_vars cleanUsername_rootops normalizePassword_example
        normalizeEmail_bad)
  have 2: "script env_bad_email calm = \<lparr>outcome = Usage (js ''Invalid ADMIN_EMAIL.''),
     file_after = file_before calm, calls = []\<rparr>"
    using config_errors_before_io [of env_bad_email calm, THEN conjunct1] 1 by (rule mp)
  have 3: "outcome (script env_missing calm) = Usage (js ''Missing ADMIN_USER.'')"
    by (simp add: script_missing usage_def)
  have 4: "calls (script env_missing calm) = [] \<and>
      file_after (script env_missing calm) = file_before calm"
    using config_errors_before_io [of env_missing calm, THEN conjunct2, THEN conjunct1,
        rule_format, OF 3] .
  have 5: "outcome (script env_example ?full) = Rejected (IOError ENOSPC)"
    by (simp add: script_disk_full rejected_def)
  then have "\<forall>db. outcome (script env_example ?full) \<noteq> Ready db" by simp
  with config_errors_before_io [of env_example ?full, THEN conjunct2, THEN conjunct2]
  have 6: "file_after (script env_example ?full) = file_before ?full" by (rule mp)
  from 1 2 3 4 5 6 show ?thesis by (simp add: env_bad_email_vars)
qed

section \<open>The username validator\<close>

lemma usernameClass_alphabet:
  "usernameClass c \<longleftrightarrow>
     c \<in> set (js ''abcdefghijklmnopqrstuvwxyzABCDEFGHIJKLMNOPQRSTUVWXYZ0123456789_.-'')"
proof
  assume "usernameClass c"
  then consider "between CHR ''a'' CHR ''z'' c" | "between CHR ''A'' CHR ''Z'' c"
    | "between CHR ''0'' CHR ''9'' c" | "c \<in> set (js ''_.-'')"
    by (auto simp add: usernameClass_def)
  then show "c \<in> set (js ''abcdefghijklmnopqrstuvwxyzABCDEFGHIJKLMNOPQRSTUVWXYZ0123456789_.-'')"
  proof cases
    case 1
    then have "c \<in> of_nat ` {unat (97::16 word)..unat (122::16 word)}"
      by (intro word16_range) (simp_all add: between_def)
    then show ?thesis by (auto simp add: js_def atLeastAtMost_upt upt_rec_numeral)
  next
    case 2
    then have "c \<in> of_nat ` {unat (65::16 word)..unat (90::16 word)}"
      by (intro word16_range) (simp_all add: between_def)
    then show ?thesis by (auto simp add: js_def atLeastAtMost_upt upt_rec_numeral)
  next
    case 3
    then have "c \<in> of_nat ` {unat (48::16 word)..unat (57::16 word)}"
      by (intro word16_range) (simp_all add: between_def)
    then show ?thesis by (auto simp add: js_def atLeastAtMost_upt upt_rec_numeral)
  next
    case 4
    then show ?thesis by (auto simp add: js_def)
  qed
next
  assume "c \<in> set (js ''abcdefghijklmnopqrstuvwxyzABCDEFGHIJKLMNOPQRSTUVWXYZ0123456789_.-'')"
  then show "usernameClass c"
    by (auto simp add: js_def usernameClass_def between_def)
qed

text \<open>
  Claim C8. \<open>cleanUsername\<close> trims the surrounding whitespace of its input and accepts
  the trimmed string if and only if its length is between 3 and 32 and each of its code
  units is one of \<^verbatim>\<open>a-z\<close>, \<^verbatim>\<open>A-Z\<close>, \<^verbatim>\<open>0-9\<close>, \<^verbatim>\<open>_\<close>, \<^verbatim>\<open>.\<close> and \<^verbatim>\<open>-\<close>; it returns the trimmed
  string when it accepts and \<^verbatim>\<open>null\<close> otherwise. What \<open>trim\<close> removes is whitespace only
  (\<open>trim_decomp\<close>).
\<close>

theorem cleanUsername_accepts_iff:
  "cleanUsername raw =
     (if 3 \<le> length (trim raw) \<and> length (trim raw) \<le> 32 \<and>
         set (trim raw) \<subseteq>
           set (js ''abcdefghijklmnopqrstuvwxyzABCDEFGHIJKLMNOPQRSTUVWXYZ0123456789_.-'')
      then Some (trim raw) else None)"
proof -
  have "testAll usernameClass (trim raw) \<longleftrightarrow> trim raw \<noteq> [] \<and>
      set (trim raw) \<subseteq>
        set (js ''abcdefghijklmnopqrstuvwxyzABCDEFGHIJKLMNOPQRSTUVWXYZ0123456789_.-'')"
    unfolding testAll_def list_all_iff usernameClass_alphabet by blast
  then show ?thesis
    by (auto simp add: cleanUsername_def Let_def)
qed

text \<open>The padded name \<^verbatim>\<open>root-ops\<close> is accepted; a name of two letters and a name with a
  blank inside are rejected.\<close>

theorem cleanUsername_accepts_iff_witness:
  "cleanUsername (js ''  root-ops '') = Some (js ''root-ops'') \<and>
   cleanUsername (js ''ab'') = None \<and>
   cleanUsername (js ''bad name'') = None"
  using cleanUsername_accepts_iff [of "js ''  root-ops ''"]
    cleanUsername_accepts_iff [of "js ''ab''"]
    cleanUsername_accepts_iff [of "js ''bad name''"]
  by (simp add: trim_def js_def isWhiteSpace_def)

section \<open>The email validator\<close>

text \<open>
  Claim C9. \<open>normalizeEmail\<close> rejects an input that does not hold exactly one \<^verbatim>\<open>@\<close>, and
  an input \<open>l @ ''@'' @ d\<close> whose part \<open>l\<close> before the \<^verbatim>\<open>@\<close> or part \<open>d\<close> after it is empty, or
  whose part \<open>d\<close> has no dot, has two dots in a row, or starts or ends with a dot. An
  address that is accepted is returned as the trimmed, lower-cased input, and trimming
  or lower-casing it again changes nothing.
\<close>

theorem normalizeEmail_rejects_malformed:
  "(count_list raw (of_char CHR ''@'') \<noteq> 1 \<longrightarrow> normalizeEmail raw = None) \<and>
   (\<forall>l d. raw = l @ js ''@'' @ d \<and>
      (l = [] \<or> d = [] \<or> \<not> sublist (js ''.'') d \<or> sublist (js ''..'') d \<or>
       prefix (js ''.'') d \<or> suffix (js ''.'') d) \<longrightarrow> normalizeEmail raw = None) \<and>
   (\<forall>e. normalizeEmail raw = Some e \<longrightarrow>
      e = toLowerCase (trim raw) \<and> trim e = e \<and> toLowerCase e = e)"
proof -
  have A: "count_list raw (of_char CHR ''@'') \<noteq> 1 \<longrightarrow> normalizeEmail raw = None"
  proof
    assume "count_list raw (of_char CHR ''@'') \<noteq> 1"
    then have "count_list raw 0x40 \<noteq> 1" by simp
    then show "normalizeEmail raw = None"
      using normalizeEmail_raw_shape(1) [of raw] by (cases "normalizeEmail raw") auto
  qed
  have B: "\<forall>l d. raw = l @ js ''@'' @ d \<and>
      (l = [] \<or> d = [] \<or> \<not> sublist (js ''.'') d \<or> sublist (js ''..'') d \<or>
       prefix (js ''.'') d \<or> suffix (js ''.'') d) \<longrightarrow> normalizeEmail raw = None"
  proof (intro allI impI)
    fix l d
    assume a: "raw = l @ js ''@'' @ d \<and>
      (l = [] \<or> d = [] \<or> \<not> sublist (js ''.'') d \<or> sublist (js ''..'') d \<or>
       prefix (js ''.'') d \<or> suffix (js ''.'') d)"
    show "normalizeEmail raw = None"
    proof (cases "normalizeEmail raw")
      case None
      then show ?thesis .
    next
      case (Some e)
      from a have "raw = l @ js ''@'' @ d" by (rule conjunct1)
      from normalizeEmail_raw_shape(2) [OF Some this] a show ?thesis by fast
    qed
  qed
  have C: "\<forall>e. normalizeEmail raw = Some e \<longrightarrow>
      e = toLowerCase (trim raw) \<and> trim e = e \<and> toLowerCase e = e"
  proof (intro allI impI)
    fix e
    assume "normalizeEmail raw = Some e"
    from normalizeEmail_SomeD [OF this] normalizeEmail_raw_shape(3,4) [OF this]
    show "e = toLowerCase (trim raw) \<and> trim e = e \<and> toLowerCase e = e" by fast
  qed
  from A B C show ?thesis by (intro conjI)
qed

lemma trim_Alice: "trim (js '' Alice@Example.COM '') = js ''Alice@Example.COM''"
  by (simp add: trim_def js_def isWhiteSpace_def)

lemma toLowerCase_Alice: "toLowerCase (js ''Alice@Example.COM'') = js ''alice@example.com''"
  by (simp add: js_def toLowerCase_def lowerUnit_def between_def)

lemma normalizeEmail_Alice:
  "normalizeEmail (js '' Alice@Example.COM '') = Some (js ''alice@example.com'')"
  unfolding normalizeEmail_def trim_Alice toLowerCase_Alice
  by (simp add: js_def testAll_def testAny_def isWhiteSpace_def
      localClass_def domainClass_def between_def Let_def
      slice_def sliceFrom_def includes_js_def startsWith_def endsWith_def suffix_to_prefix)

text \<open>A string without \<^verbatim>\<open>@\<close> and a domain with two dots in a row are rejected; a padded
  address in mixed case is accepted and returned trimmed and in lower case.\<close>

theorem normalizeEmail_rejects_malformed_witness:
  "count_list (js ''not-an-email'') (of_char CHR ''@'') \<noteq> 1 \<and>
   normalizeEmail (js ''not-an-email'') = None \<and>
   js ''a@b..com'' = js ''a'' @ js ''@'' @ js ''b..com'' \<and>
   sublist (js ''..'') (js ''b..com'') \<and>
   normalizeEmail (js ''a@b..com'') = None \<and>
   normalizeEmail (js '' Alice@Example.COM '') = Some (js ''alice@example.com'') \<and>
   js ''alice@example.com'' = toLowerCase (trim (js '' Alice@Example.COM '')) \<and>
   trim (js ''alice@example.com'') = js ''alice@example.com'' \<and>
   toLowerCase (js ''alice@example.com'') = js ''alice@example.com''"
proof -
  have 1: "count_list (js ''not-an-email'') (of_char CHR ''@'') \<noteq> 1"
    by (simp add: js_def)
  have 2: "normalizeEmail (js ''not-an-email'') = None"
    using normalizeEmail_rejects_malformed [of "js ''not-an-email''", THEN conjunct1] 1
    by (rule mp)
  have 3: "js ''a@b..com'' = js ''a'' @ js ''@'' @ js ''b..com''"
    by (simp add: js_def)
  have 4: "sublist (js ''..'') (js ''b..com'')"
    by (simp add: js_def sublist_Cons_right)
  have 5: "normalizeEmail (js ''a@b..com'') = None"
    using normalizeEmail_rejects_malformed [of "js ''a@b..com''", THEN conjunct2, THEN conjunct1,
        rule_format, of "js ''a''" "js ''b..com''"] 3 4
    by fast
  have 6: "js ''alice@example.com'' = toLowerCase (trim (js '' Alice@Example.COM '')) \<and>
      trim (js ''alice@example.com'') = js ''alice@example.com'' \<and>
      toLowerCase (js ''alice@example.com'') = js ''alice@example.com''"
    using normalizeEmail_rejects_malformed [of "js '' Alice@Example.COM ''", THEN conjunct2,
        THEN conjunct2, rule_format, OF normalizeEmail_Alice] .
  show ?thesis
    by (intro conjI 1 2 3 4 5 normalizeEmail_Alice 6 [THEN conjunct1]
        6 [THEN conjunct2, THEN conjunct1] 6 [THEN conjunct2, THEN conjunct2])
qed

section \<open>What the update leaves alone\<close>



end
